theory Spec2Isabelle
  imports Main "HOL-Library.Multiset"
begin

section \<open>JavaScript strings and the key-value store\<close>

text \<open>
  A JavaScript string is a sequence of UTF-16 code units. A code unit is modelled as a
  natural number (JavaScript's are below 65536; nothing below depends on the bound), and
  an ASCII literal of the source is written \<open>js ''...''\<close>.
\<close>

type_synonym jstring = "nat list"

abbreviation js :: "string \<Rightarrow> jstring" where
  "js s \<equiv> map of_char s"

text \<open>
  \<open>localStorage\<close>: a string-keyed map to strings. \<open>getItem\<close> answers \<open>null\<close>
  (here \<open>None\<close>) for an absent key; \<open>setItem\<close> replaces the value of one key.
  The store is taken to have room for every write.
\<close>

type_synonym storage = "jstring \<rightharpoonup> jstring"

definition getItem :: "storage \<Rightarrow> jstring \<Rightarrow> jstring option" where
  "getItem st k = st k"

definition setItem :: "storage \<Rightarrow> jstring \<Rightarrow> jstring \<Rightarrow> storage" where
  "setItem st k v = st(k \<mapsto> v)"

text \<open>The errors that the modelled code can throw.\<close>

datatype js_error = SyntaxError | TypeError

section \<open>Reminders (types.ts)\<close>

datatype ReminderType = Fertilizer | Pesticide | Watering | Other

record Reminder =
  r_id :: jstring
  r_title :: jstring
  r_date :: jstring
  r_type :: ReminderType
  r_plantName :: "jstring option"
  r_completed :: bool

section \<open>The notification scheduler (App.tsx, checkReminders)\<close>

text \<open>\<open>Notification.permission\<close> is one of \<open>"granted"\<close>, \<open>"denied"\<close>, \<open>"default"\<close>.\<close>

datatype permission = Granted | Denied | Default

record notification =
  n_title :: jstring
  n_body :: jstring
  n_icon :: jstring

text \<open>
  What one run of \<open>checkReminders\<close> does to the outside, in the order it does it:
  \<open>Notified i d n\<close> is the call \<open>new Notification(...)\<close> made for the reminder with id
  \<open>i\<close> by a run whose \<open>todayStr\<close> is \<open>d\<close>; \<open>SetItem k v\<close> is the call
  \<open>localStorage.setItem(k, v)\<close>. Both calls are taken to return normally.
\<close>

datatype effect = Notified jstring jstring notification | SetItem jstring jstring

text \<open>The template string \<open>`notified_${reminder.id}`\<close>.\<close>

definition marker_key :: "jstring \<Rightarrow> jstring" where
  "marker_key i = js ''notified_'' @ i"

text \<open>\<open>reminder.plantName || 'plants'\<close>: an absent or empty name yields \<open>'plants'\<close>.\<close>

definition plant_or_default :: "jstring option \<Rightarrow> jstring" where
  "plant_or_default p = (case p of None \<Rightarrow> js ''plants'' | Some s \<Rightarrow> if s = [] then js ''plants'' else s)"

definition reminder_notification :: "Reminder \<Rightarrow> notification" where
  "reminder_notification r =
     \<lparr> n_title = js ''FloraGuard: '' @ r_title r,
       n_body = js ''Don't forget to take care of your '' @ plant_or_default (r_plantName r) @ js '' today!'',
       n_icon = js ''/favicon.ico'' \<rparr>"

text \<open>
  The body of the \<open>forEach\<close> callback. \<open>toDateString\<close> stands for the platform's
  \<open>new Date(s).toDateString()\<close> (it depends on the time zone of the browser), \<open>perm\<close> for
  \<open>Notification.permission\<close> and \<open>todayStr\<close> for \<open>new Date().toDateString()\<close>.
  The result is the store after the callback and the effects it had, in order.
\<close>

definition check_one ::
  "(jstring \<Rightarrow> jstring) \<Rightarrow> permission \<Rightarrow> jstring \<Rightarrow> Reminder \<Rightarrow> storage \<Rightarrow> storage \<times> effect list" where
  "check_one toDateString perm todayStr reminder st =
     (if toDateString (r_date reminder) = todayStr \<and> \<not> r_completed reminder then
        if perm = Granted then
          let lastNotified = getItem st (marker_key (r_id reminder)) in
          if lastNotified \<noteq> Some todayStr then
            (setItem st (marker_key (r_id reminder)) todayStr,
             [Notified (r_id reminder) todayStr (reminder_notification reminder),
              SetItem (marker_key (r_id reminder)) todayStr])
          else (st, [])
        else (st, [])
      else (st, []))"

text \<open>\<open>reminders.forEach(...)\<close>: the callback runs on each reminder in order.\<close>

fun checkReminders ::
  "(jstring \<Rightarrow> jstring) \<Rightarrow> permission \<Rightarrow> jstring \<Rightarrow> Reminder list \<Rightarrow> storage \<Rightarrow> storage \<times> effect list" where
  "checkReminders toDateString perm todayStr [] st = (st, [])"
| "checkReminders toDateString perm todayStr (r # rs) st =
     (let (st1, es1) = check_one toDateString perm todayStr r st;
          (st2, es2) = checkReminders toDateString perm todayStr rs st1
      in (st2, es1 @ es2))"

text \<open>The notifications among a list of effects that were created for the reminder id \<open>i\<close>.\<close>

fun notified_for :: "jstring \<Rightarrow> effect \<Rightarrow> bool" where
  "notified_for i (Notified j d n) = (j = i)"
| "notified_for i (SetItem k v) = False"

definition dispatches :: "jstring \<Rightarrow> effect list \<Rightarrow> nat" where
  "dispatches i es = length (filter (notified_for i) es)"

section \<open>Properties of the scheduler\<close>

lemma marker_key_inj: "marker_key i = marker_key j \<longleftrightarrow> i = j"
  by (simp add: marker_key_def)

lemma dispatches_append: "dispatches i (es @ fs) = dispatches i es + dispatches i fs"
  by (simp add: dispatches_def)

lemma dispatches_Nil: "dispatches i [] = 0"
  by (simp add: dispatches_def)

text \<open>Once the marker of an id holds today's string, a run leaves it and creates no
  notification for that id.\<close>

lemma check_one_marked:
  assumes "st (marker_key i) = Some d" and "check_one f p d r st = (st', es)"
  shows "st' (marker_key i) = Some d \<and> dispatches i es = 0"
  using assms
  by (auto simp: check_one_def getItem_def setItem_def Let_def dispatches_def marker_key_inj
      split: if_splits)

lemma checkReminders_marked:
  assumes "st (marker_key i) = Some d" and "checkReminders f p d rs st = (st', es)"
  shows "st' (marker_key i) = Some d \<and> dispatches i es = 0"
  using assms
proof (induction rs arbitrary: st st' es)
  case Nil
  then show ?case by (simp add: dispatches_Nil)
next
  case (Cons r rs)
  obtain st1 es1 where c1: "check_one f p d r st = (st1, es1)"
    by (cases "check_one f p d r st")
  obtain st2 es2 where c2: "checkReminders f p d rs st1 = (st2, es2)"
    by (cases "checkReminders f p d rs st1")
  from Cons.prems(2) c1 c2 have eq: "st' = st2" "es = es1 @ es2" by auto
  from check_one_marked[OF Cons.prems(1) c1]
  have m1: "st1 (marker_key i) = Some d" and d1: "dispatches i es1 = 0" by auto
  from Cons.IH[OF m1 c2] d1 eq show ?case by (simp add: dispatches_append)
qed

text \<open>One callback creates at most one notification, and after one it has set the marker.\<close>

lemma check_one_dispatch:
  assumes "check_one f p d r st = (st', es)"
  shows "dispatches i es \<le> 1 \<and> (dispatches i es = 1 \<longrightarrow> st' (marker_key i) = Some d)"
  using assms
  by (auto simp: check_one_def getItem_def setItem_def Let_def dispatches_def
      split: if_splits)

lemma checkReminders_at_most_once:
  assumes "checkReminders f p d rs st = (st', es)"
  shows "dispatches i es \<le> 1"
  using assms
proof (induction rs arbitrary: st st' es)
  case Nil
  then show ?case by (simp add: dispatches_Nil)
next
  case (Cons r rs)
  obtain st1 es1 where c1: "check_one f p d r st = (st1, es1)"
    by (cases "check_one f p d r st")
  obtain st2 es2 where c2: "checkReminders f p d rs st1 = (st2, es2)"
    by (cases "checkReminders f p d rs st1")
  from Cons.prems c1 c2 have eq: "es = es1 @ es2" by auto
  show ?case
  proof (cases "dispatches i es1 = 0")
    case True
    with Cons.IH[OF c2] eq show ?thesis by (simp add: dispatches_append)
  next
    case False
    with check_one_dispatch[OF c1, of i] have one: "dispatches i es1 = 1"
      and m: "st1 (marker_key i) = Some d" by auto
    from checkReminders_marked[OF m c2] one eq show ?thesis
      by (simp add: dispatches_append)
  qed
qed

text \<open>A due, uncompleted reminder in the list leaves its marker at today's string when
  the capability is granted.\<close>

lemma check_one_sets_marker:
  assumes "f (r_date r) = d" and "\<not> r_completed r"
    and "check_one f Granted d r st = (st', es)"
  shows "st' (marker_key (r_id r)) = Some d"
  using assms
  by (auto simp: check_one_def getItem_def setItem_def Let_def split: if_splits)

lemma checkReminders_sets_marker:
  assumes "r \<in> set rs" and "f (r_date r) = d" and "\<not> r_completed r"
    and "checkReminders f Granted d rs st = (st', es)"
  shows "st' (marker_key (r_id r)) = Some d"
  using assms(1,4)
proof (induction rs arbitrary: st st' es)
  case Nil
  then show ?case by simp
next
  case (Cons x rs)
  obtain st1 es1 where c1: "check_one f Granted d x st = (st1, es1)"
    by (cases "check_one f Granted d x st")
  obtain st2 es2 where c2: "checkReminders f Granted d rs st1 = (st2, es2)"
    by (cases "checkReminders f Granted d rs st1")
  from Cons.prems(2) c1 c2 have eq: "st' = st2" by auto
  show ?case
  proof (cases "x = r")
    case True
    with c1 have "check_one f Granted d r st = (st1, es1)" by simp
    with assms(2,3) have "st1 (marker_key (r_id r)) = Some d"
      by (rule check_one_sets_marker)
    from checkReminders_marked[OF this c2] eq show ?thesis by simp
  next
    case False
    with Cons.prems(1) have "r \<in> set rs" by simp
    from Cons.IH[OF this c2] eq show ?thesis by simp
  qed
qed

text \<open>
  C2. A reminder of the list that is due today and not completed gets at most one
  notification from two runs of the scheduler on the same calendar day with the
  capability granted, whatever the store held before the first run and whatever list the
  second run goes through: the second run creates none for it, because the first run
  leaves the marker of its id at today's string.
\<close>

theorem tick_twice_at_most_once:
  assumes "r \<in> set rs" and "toDateString (r_date r) = todayStr" and "\<not> r_completed r"
    and "checkReminders toDateString Granted todayStr rs st = (st1, es1)"
    and "checkReminders toDateString Granted todayStr rs' st1 = (st2, es2)"
  shows "dispatches (r_id r) (es1 @ es2) \<le> 1 \<and> dispatches (r_id r) es2 = 0
         \<and> getItem st1 (marker_key (r_id r)) = Some todayStr"
proof -
  have m: "st1 (marker_key (r_id r)) = Some todayStr"
    by (rule checkReminders_sets_marker[OF assms(1-4)])
  have second: "dispatches (r_id r) es2 = 0"
    using checkReminders_marked[OF m assms(5)] by simp
  have first: "dispatches (r_id r) es1 \<le> 1"
    by (rule checkReminders_at_most_once[OF assms(4)])
  from m first second show ?thesis
    by (simp add: dispatches_append getItem_def)
qed

definition demo_reminder :: Reminder where
  "demo_reminder =
     \<lparr> r_id = js ''r1'', r_title = js ''Fertilize Tomatoes'',
       r_date = js ''2026-11-02T09:00:00.000Z'', r_type = Fertilizer,
       r_plantName = Some (js ''Tomatoes''), r_completed = False \<rparr>"

definition demo_toDateString :: "jstring \<Rightarrow> jstring" where
  "demo_toDateString s =
     (if s = js ''2026-11-02T09:00:00.000Z'' then js ''Mon Nov 02 2026'' else js ''Invalid Date'')"

definition demo_today :: jstring where
  "demo_today = js ''Mon Nov 02 2026''"

lemma demo_due: "demo_toDateString (r_date demo_reminder) = demo_today"
  by (simp add: demo_toDateString_def demo_reminder_def demo_today_def)

lemma demo_open: "\<not> r_completed demo_reminder"
  by (simp add: demo_reminder_def)

theorem tick_twice_at_most_once_witness:
  "demo_reminder \<in> set [demo_reminder]
   \<and> demo_toDateString (r_date demo_reminder) = demo_today
   \<and> \<not> r_completed demo_reminder
   \<and> dispatches (r_id demo_reminder)
        (snd (checkReminders demo_toDateString Granted demo_today [demo_reminder] Map.empty)
         @ snd (checkReminders demo_toDateString Granted demo_today [demo_reminder]
               (fst (checkReminders demo_toDateString Granted demo_today [demo_reminder] Map.empty))))
       \<le> 1"
  using tick_twice_at_most_once [of demo_reminder "[demo_reminder]" demo_toDateString demo_today
      Map.empty
      "fst (checkReminders demo_toDateString Granted demo_today [demo_reminder] Map.empty)"
      "snd (checkReminders demo_toDateString Granted demo_today [demo_reminder] Map.empty)"
      "[demo_reminder]"
      "fst (checkReminders demo_toDateString Granted demo_today [demo_reminder]
               (fst (checkReminders demo_toDateString Granted demo_today [demo_reminder] Map.empty)))"
      "snd (checkReminders demo_toDateString Granted demo_today [demo_reminder]
               (fst (checkReminders demo_toDateString Granted demo_today [demo_reminder] Map.empty)))"]
    demo_due demo_open
  by simp

text \<open>A callback that creates no notification for an id leaves the marker of that id.\<close>

lemma check_one_silent:
  assumes "check_one f p d r st = (st', es)" and "dispatches i es = 0"
  shows "st' (marker_key i) = st (marker_key i)"
  using assms
  by (auto simp: check_one_def getItem_def setItem_def Let_def dispatches_def marker_key_inj
      split: if_splits)

lemma check_one_fires:
  assumes "f (r_date r) = d" and "\<not> r_completed r" and "st (marker_key (r_id r)) \<noteq> Some d"
    and "check_one f Granted d r st = (st', es)"
  shows "dispatches (r_id r) es = 1"
  using assms
  by (auto simp: check_one_def getItem_def setItem_def Let_def dispatches_def
      split: if_splits)

lemma checkReminders_fires:
  assumes "r \<in> set rs" and "f (r_date r) = d" and "\<not> r_completed r"
    and "st (marker_key (r_id r)) \<noteq> Some d"
    and "checkReminders f Granted d rs st = (st', es)"
  shows "1 \<le> dispatches (r_id r) es"
  using assms(1,4,5)
proof (induction rs arbitrary: st st' es)
  case Nil
  then show ?case by simp
next
  case (Cons x rs)
  obtain st1 es1 where c1: "check_one f Granted d x st = (st1, es1)"
    by (cases "check_one f Granted d x st")
  obtain st2 es2 where c2: "checkReminders f Granted d rs st1 = (st2, es2)"
    by (cases "checkReminders f Granted d rs st1")
  from Cons.prems(3) c1 c2 have eq: "es = es1 @ es2" by auto
  show ?case
  proof (cases "dispatches (r_id r) es1 = 0")
    case False
    with eq show ?thesis by (simp add: dispatches_append)
  next
    case True
    have "x \<noteq> r"
    proof
      assume "x = r"
      with c1 have "check_one f Granted d r st = (st1, es1)" by simp
      with assms(2,3) Cons.prems(2) have "dispatches (r_id r) es1 = 1"
        by (rule check_one_fires)
      with True show False by simp
    qed
    with Cons.prems(1) have mem: "r \<in> set rs" by auto
    from check_one_silent[OF c1 True] Cons.prems(2)
    have "st1 (marker_key (r_id r)) \<noteq> Some d" by simp
    from Cons.IH[OF mem this c2] eq show ?thesis by (simp add: dispatches_append)
  qed
qed

text \<open>
  C5. A marker left for an earlier day does not suppress the notification of a later
  day: when the store holds the string of day \<open>D\<close> under the marker key of a reminder, a
  run on another day (so also on \<open>D + 1\<close>) with the reminder in the list, due that day
  and not completed, and the capability granted, creates exactly one notification for the
  reminder's id and moves the marker to the new day.
\<close>

theorem day_rollover_dispatches:
  assumes "r \<in> set rs" and "toDateString (r_date r) = todayStr" and "\<not> r_completed r"
    and "getItem st (marker_key (r_id r)) = Some dayD" and "dayD \<noteq> todayStr"
    and "checkReminders toDateString Granted todayStr rs st = (st', es)"
  shows "dispatches (r_id r) es = 1 \<and> getItem st' (marker_key (r_id r)) = Some todayStr"
proof -
  from assms(4,5) have old: "st (marker_key (r_id r)) \<noteq> Some todayStr"
    by (simp add: getItem_def)
  have "1 \<le> dispatches (r_id r) es"
    by (rule checkReminders_fires[OF assms(1-3) old assms(6)])
  moreover have "dispatches (r_id r) es \<le> 1"
    by (rule checkReminders_at_most_once[OF assms(6)])
  moreover have "st' (marker_key (r_id r)) = Some todayStr"
    by (rule checkReminders_sets_marker[OF assms(1-3,6)])
  ultimately show ?thesis by (simp add: getItem_def)
qed

definition demo_yesterday :: jstring where
  "demo_yesterday = js ''Sun Nov 01 2026''"

definition demo_marked :: storage where
  "demo_marked = Map.empty(marker_key (js ''r1'') \<mapsto> demo_yesterday)"

lemma demo_days_differ: "demo_yesterday \<noteq> demo_today"
  by (simp add: demo_yesterday_def demo_today_def)

theorem day_rollover_dispatches_witness:
  "demo_reminder \<in> set [demo_reminder]
   \<and> demo_toDateString (r_date demo_reminder) = demo_today
   \<and> \<not> r_completed demo_reminder
   \<and> getItem demo_marked (marker_key (r_id demo_reminder)) = Some demo_yesterday
   \<and> demo_yesterday \<noteq> demo_today
   \<and> dispatches (r_id demo_reminder)
        (snd (checkReminders demo_toDateString Granted demo_today [demo_reminder] demo_marked)) = 1
   \<and> getItem (fst (checkReminders demo_toDateString Granted demo_today [demo_reminder] demo_marked))
        (marker_key (r_id demo_reminder)) = Some demo_today"
proof -
  have m: "getItem demo_marked (marker_key (r_id demo_reminder)) = Some demo_yesterday"
    by (simp add: getItem_def demo_marked_def demo_reminder_def)
  have mem: "demo_reminder \<in> set [demo_reminder]" by simp
  have run: "checkReminders demo_toDateString Granted demo_today [demo_reminder] demo_marked
      = (fst (checkReminders demo_toDateString Granted demo_today [demo_reminder] demo_marked),
         snd (checkReminders demo_toDateString Granted demo_today [demo_reminder] demo_marked))"
    by simp
  from day_rollover_dispatches [OF mem demo_due demo_open m demo_days_differ run]
    mem demo_due demo_open m demo_days_differ
  show ?thesis by blast
qed

subsection \<open>Runs of the scheduler over time\<close>

text \<open>
  The timer calls \<open>checkReminders\<close> again and again. A \<open>tick\<close> holds what one call
  finds: the platform's date conversion, the capability, today's string and the reminders
  of the render it belongs to. A \<open>world\<close> is the store together with everything the
  calls so far did, oldest first.
\<close>

record tick =
  t_toDateString :: "jstring \<Rightarrow> jstring"
  t_permission :: permission
  t_todayStr :: jstring
  t_reminders :: "Reminder list"

record world =
  w_storage :: storage
  w_trace :: "effect list"

definition do_tick :: "tick \<Rightarrow> world \<Rightarrow> world" where
  "do_tick t w =
     (let (st', es) = checkReminders (t_toDateString t) (t_permission t) (t_todayStr t)
                        (t_reminders t) (w_storage w)
      in \<lparr> w_storage = st', w_trace = w_trace w @ es \<rparr>)"

fun run_ticks :: "world \<Rightarrow> tick list \<Rightarrow> world" where
  "run_ticks w [] = w"
| "run_ticks w (t # ts) = run_ticks (do_tick t w) ts"

text \<open>
  A trace is \<open>paired\<close> when it consists of notifications each directly followed by the
  write of the marker of the same id with the same day: no marker write stands before
  its notification or without one.
\<close>

fun paired :: "effect list \<Rightarrow> bool" where
  "paired [] = True"
| "paired (Notified i d n # SetItem k v # es) = (k = marker_key i \<and> v = d \<and> paired es)"
| "paired es = False"

definition marker_justified :: "world \<Rightarrow> bool" where
  "marker_justified w =
     ((\<forall>i d. getItem (w_storage w) (marker_key i) = Some d
          \<longrightarrow> (\<exists>n. Notified i d n \<in> set (w_trace w)))
      \<and> paired (w_trace w))"

lemma paired_append: "paired es \<Longrightarrow> paired fs \<Longrightarrow> paired (es @ fs)"
  by (induction es rule: paired.induct) auto

lemma check_one_paired: "check_one f p d r st = (st', es) \<Longrightarrow> paired es"
  by (auto simp: check_one_def Let_def split: if_splits)

lemma checkReminders_paired: "checkReminders f p d rs st = (st', es) \<Longrightarrow> paired es"
proof (induction rs arbitrary: st st' es)
  case Nil
  then show ?case by simp
next
  case (Cons r rs)
  obtain st1 es1 where c1: "check_one f p d r st = (st1, es1)"
    by (cases "check_one f p d r st")
  obtain st2 es2 where c2: "checkReminders f p d rs st1 = (st2, es2)"
    by (cases "checkReminders f p d rs st1")
  from Cons.prems c1 c2 have eq: "es = es1 @ es2" by auto
  from check_one_paired[OF c1] Cons.IH[OF c2] eq show ?case
    by (simp add: paired_append)
qed

text \<open>A marker found after a run was there before it or was written after a
  notification of that run.\<close>

lemma check_one_origin:
  assumes "check_one f p d r st = (st', es)" and "st' (marker_key i) = Some v"
  shows "st (marker_key i) = Some v \<or> (\<exists>n. Notified i v n \<in> set es)"
  using assms
  by (auto simp: check_one_def getItem_def setItem_def Let_def marker_key_inj
      split: if_splits)

lemma checkReminders_origin:
  assumes "checkReminders f p d rs st = (st', es)" and "st' (marker_key i) = Some v"
  shows "st (marker_key i) = Some v \<or> (\<exists>n. Notified i v n \<in> set es)"
  using assms
proof (induction rs arbitrary: st st' es)
  case Nil
  then show ?case by simp
next
  case (Cons r rs)
  obtain st1 es1 where c1: "check_one f p d r st = (st1, es1)"
    by (cases "check_one f p d r st")
  obtain st2 es2 where c2: "checkReminders f p d rs st1 = (st2, es2)"
    by (cases "checkReminders f p d rs st1")
  from Cons.prems(1) c1 c2 have eq: "st' = st2" "es = es1 @ es2" by auto
  from Cons.prems(2) eq have "st2 (marker_key i) = Some v" by simp
  from Cons.IH[OF c2 this]
  have "st1 (marker_key i) = Some v \<or> (\<exists>n. Notified i v n \<in> set es2)" .
  then show ?case
  proof
    assume "st1 (marker_key i) = Some v"
    from check_one_origin[OF c1 this] eq show ?thesis by auto
  next
    assume "\<exists>n. Notified i v n \<in> set es2"
    with eq show ?thesis by auto
  qed
qed

text \<open>Without the capability a run does nothing at all.\<close>

lemma checkReminders_not_granted:
  "p \<noteq> Granted \<Longrightarrow> checkReminders f p d rs st = (st, [])"
  by (induction rs) (simp_all add: check_one_def)

text \<open>A run in which every reminder of an id is completed or not due today has no
  effect for that id.\<close>

lemma check_one_not_eligible:
  assumes "r_id r = i \<longrightarrow> r_completed r \<or> f (r_date r) \<noteq> d"
    and "check_one f p d r st = (st', es)"
  shows "st' (marker_key i) = st (marker_key i) \<and> dispatches i es = 0
         \<and> (\<forall>v. SetItem (marker_key i) v \<notin> set es)"
  using assms
  by (auto simp: check_one_def getItem_def setItem_def Let_def dispatches_def marker_key_inj
      split: if_splits)

lemma checkReminders_not_eligible:
  assumes "\<forall>r \<in> set rs. r_id r = i \<longrightarrow> r_completed r \<or> f (r_date r) \<noteq> d"
    and "checkReminders f p d rs st = (st', es)"
  shows "st' (marker_key i) = st (marker_key i) \<and> dispatches i es = 0
         \<and> (\<forall>v. SetItem (marker_key i) v \<notin> set es)"
  using assms
proof (induction rs arbitrary: st st' es)
  case Nil
  then show ?case by (simp add: dispatches_Nil)
next
  case (Cons r rs)
  obtain st1 es1 where c1: "check_one f p d r st = (st1, es1)"
    by (cases "check_one f p d r st")
  obtain st2 es2 where c2: "checkReminders f p d rs st1 = (st2, es2)"
    by (cases "checkReminders f p d rs st1")
  from Cons.prems(2) c1 c2 have eq: "st' = st2" "es = es1 @ es2" by auto
  from Cons.prems(1) have h: "r_id r = i \<longrightarrow> r_completed r \<or> f (r_date r) \<noteq> d"
    and t: "\<forall>r \<in> set rs. r_id r = i \<longrightarrow> r_completed r \<or> f (r_date r) \<noteq> d"
    by simp_all
  from check_one_not_eligible[OF h c1] Cons.IH[OF t c2] eq show ?case
    by (simp add: dispatches_append)
qed

lemma do_tick_justified:
  assumes "marker_justified w"
  shows "marker_justified (do_tick t w)"
proof -
  obtain st' es where c: "checkReminders (t_toDateString t) (t_permission t) (t_todayStr t)
      (t_reminders t) (w_storage w) = (st', es)"
    by (cases "checkReminders (t_toDateString t) (t_permission t) (t_todayStr t)
      (t_reminders t) (w_storage w)")
  then have w': "do_tick t w = \<lparr> w_storage = st', w_trace = w_trace w @ es \<rparr>"
    by (simp add: do_tick_def)
  from assms have old: "\<And>i d. w_storage w (marker_key i) = Some d
      \<Longrightarrow> \<exists>n. Notified i d n \<in> set (w_trace w)"
    and p: "paired (w_trace w)"
    by (auto simp: marker_justified_def getItem_def)
  have "\<exists>n. Notified i d n \<in> set (w_trace w @ es)" if "st' (marker_key i) = Some d" for i d
    using checkReminders_origin[OF c that] old[of i d] by auto
  moreover have "paired (w_trace w @ es)"
    using p checkReminders_paired[OF c] by (rule paired_append)
  ultimately show ?thesis
    by (simp add: marker_justified_def getItem_def w')
qed

lemma run_ticks_justified:
  "marker_justified w \<Longrightarrow> marker_justified (run_ticks w ts)"
  by (induction ts arbitrary: w) (simp_all add: do_tick_justified)

text \<open>
  C3. Start from a store without dispatch markers and let the scheduler run any number
  of times, each time with any reminders, any day and any state of the capability. In
  every state reached: a marker holding day \<open>d\<close> under the key of id \<open>i\<close> is there only
  if a notification for \<open>i\<close> was created by a run of day \<open>d\<close>, and every marker write in
  the history stands directly after the creation of the notification for the same id and
  day. A further run from such a state writes nothing and notifies nobody when the
  capability is not granted, and for an id whose reminders are all completed or not due
  it writes no marker and leaves the marker as it was.
\<close>

theorem marker_only_after_dispatch:
  assumes "\<forall>i. st0 (marker_key i) = None"
    and "w = run_ticks \<lparr> w_storage = st0, w_trace = [] \<rparr> ts"
  shows "(\<forall>i d. getItem (w_storage w) (marker_key i) = Some d
            \<longrightarrow> (\<exists>n. Notified i d n \<in> set (w_trace w)))
         \<and> paired (w_trace w)
         \<and> (\<forall>f p d rs st' es. checkReminders f p d rs (w_storage w) = (st', es) \<longrightarrow>
               (p \<noteq> Granted \<longrightarrow> st' = w_storage w \<and> es = [])
               \<and> (\<forall>i. (\<forall>r \<in> set rs. r_id r = i \<longrightarrow> r_completed r \<or> f (r_date r) \<noteq> d)
                     \<longrightarrow> getItem st' (marker_key i) = getItem (w_storage w) (marker_key i)
                         \<and> (\<forall>v. SetItem (marker_key i) v \<notin> set es)))"
proof -
  from assms(1) have "marker_justified \<lparr> w_storage = st0, w_trace = [] \<rparr>"
    by (simp add: marker_justified_def getItem_def)
  then have "marker_justified w"
    unfolding assms(2) by (rule run_ticks_justified)
  then have a: "(\<forall>i d. getItem (w_storage w) (marker_key i) = Some d
            \<longrightarrow> (\<exists>n. Notified i d n \<in> set (w_trace w))) \<and> paired (w_trace w)"
    by (simp add: marker_justified_def)
  have b: "(p \<noteq> Granted \<longrightarrow> st' = w_storage w \<and> es = [])
        \<and> (\<forall>i. (\<forall>r \<in> set rs. r_id r = i \<longrightarrow> r_completed r \<or> f (r_date r) \<noteq> d)
              \<longrightarrow> getItem st' (marker_key i) = getItem (w_storage w) (marker_key i)
                  \<and> (\<forall>v. SetItem (marker_key i) v \<notin> set es))"
    if c: "checkReminders f p d rs (w_storage w) = (st', es)" for f p d rs st' es
  proof -
    have 1: "p \<noteq> Granted \<longrightarrow> st' = w_storage w \<and> es = []"
      using c checkReminders_not_granted[of p f d rs "w_storage w"] by auto
    have 2: "getItem st' (marker_key i) = getItem (w_storage w) (marker_key i)
                  \<and> (\<forall>v. SetItem (marker_key i) v \<notin> set es)"
      if h: "\<forall>r \<in> set rs. r_id r = i \<longrightarrow> r_completed r \<or> f (r_date r) \<noteq> d" for i
      using checkReminders_not_eligible[OF h c] by (simp add: getItem_def)
    from 1 2 show ?thesis by blast
  qed
  from a b show ?thesis by blast
qed

definition demo_tick :: tick where
  "demo_tick = \<lparr> t_toDateString = demo_toDateString, t_permission = Granted,
                 t_todayStr = demo_today, t_reminders = [demo_reminder] \<rparr>"

theorem marker_only_after_dispatch_witness:
  "(\<forall>i. (Map.empty :: storage) (marker_key i) = None)
   \<and> getItem (w_storage (run_ticks \<lparr> w_storage = Map.empty, w_trace = [] \<rparr> [demo_tick]))
        (marker_key (js ''r1'')) = Some demo_today
   \<and> (\<exists>n. Notified (js ''r1'') demo_today n
          \<in> set (w_trace (run_ticks \<lparr> w_storage = Map.empty, w_trace = [] \<rparr> [demo_tick])))
   \<and> paired (w_trace (run_ticks \<lparr> w_storage = Map.empty, w_trace = [] \<rparr> [demo_tick]))"
proof -
  have e: "\<forall>i. (Map.empty :: storage) (marker_key i) = None" by simp
  have m: "getItem (w_storage (run_ticks \<lparr> w_storage = Map.empty, w_trace = [] \<rparr> [demo_tick]))
        (marker_key (js ''r1'')) = Some demo_today"
    by (simp add: do_tick_def demo_tick_def check_one_def getItem_def setItem_def Let_def
        demo_due demo_open) (simp add: demo_reminder_def)
  from marker_only_after_dispatch [OF e refl, of "[demo_tick]"] e m
  show ?thesis by blast
qed

section \<open>JSON values and \<open>JSON.stringify\<close>\<close>

text \<open>
  The values \<open>JSON.stringify\<close> writes and \<open>JSON.parse\<close> answers. An object is the
  list of its properties in insertion order (JavaScript lists properties whose keys are
  array indices first; the records of this application have no such keys). Numbers are
  integers: the one number the application stores is \<open>timestamp\<close>, from \<open>Date.now()\<close>.
  Doubles are not modelled, and a number written with a fraction or an exponent is kept
  as the text it was written with (\<open>JDec\<close>).
\<close>

datatype json =
    JNull
  | JBool bool
  | JNum int
  | JDec jstring
  | JStr jstring
  | JArr "json list"
  | JObj "(jstring \<times> json) list"

text \<open>
  \<open>QuoteJSONString\<close> of ECMAScript: the two-character escapes, \<open>\uXXXX\<close> in lower
  case for the other control characters and for surrogates that stand alone, everything
  else as it is.
\<close>

definition hexdigit :: "nat \<Rightarrow> nat" where
  "hexdigit n = (if n < 10 then 48 + n else 87 + n)"

definition unicode_escape :: "nat \<Rightarrow> jstring" where
  "unicode_escape c =
     [0x5C, 0x75, hexdigit (c div 4096 mod 16), hexdigit (c div 256 mod 16),
      hexdigit (c div 16 mod 16), hexdigit (c mod 16)]"

definition is_lead :: "nat \<Rightarrow> bool" where
  "is_lead c = (0xD800 \<le> c \<and> c \<le> 0xDBFF)"

definition is_trail :: "nat \<Rightarrow> bool" where
  "is_trail c = (0xDC00 \<le> c \<and> c \<le> 0xDFFF)"

definition escape_unit :: "nat \<Rightarrow> jstring" where
  "escape_unit c =
     (if c = 0x08 then [0x5C, 0x62]
      else if c = 0x09 then [0x5C, 0x74]
      else if c = 0x0A then [0x5C, 0x6E]
      else if c = 0x0C then [0x5C, 0x66]
      else if c = 0x0D then [0x5C, 0x72]
      else if c = 0x22 then [0x5C, 0x22]
      else if c = 0x5C then [0x5C, 0x5C]
      else if c < 0x20 then unicode_escape c
      else [c])"

fun quote_units :: "jstring \<Rightarrow> jstring" where
  "quote_units [] = []"
| "quote_units [c] = (if is_lead c \<or> is_trail c then unicode_escape c else escape_unit c)"
| "quote_units (c # d # cs) =
     (if is_lead c \<and> is_trail d then c # d # quote_units cs
      else if is_lead c \<or> is_trail c then unicode_escape c @ quote_units (d # cs)
      else escape_unit c @ quote_units (d # cs))"

definition quote :: "jstring \<Rightarrow> jstring" where
  "quote s = 0x22 # quote_units s @ [0x22]"

text \<open>The decimal digits of a natural number, without leading zeros; an integer is
  written with them (as JavaScript does below \<open>10^21\<close>), after a minus sign when it is
  negative.\<close>

fun digits :: "nat \<Rightarrow> jstring" where
  "digits n = (if n < 10 then [48 + n] else digits (n div 10) @ [48 + n mod 10])"

declare digits.simps [simp del]

definition show_int :: "int \<Rightarrow> jstring" where
  "show_int n = (if n < 0 then 0x2D # digits (nat (- n)) else digits (nat n))"

text \<open>The pieces of a list with a separator between them.\<close>

fun join_with :: "'a \<Rightarrow> 'a list list \<Rightarrow> 'a list" where
  "join_with sep [] = []"
| "join_with sep [x] = x"
| "join_with sep (x # y # ys) = x @ sep # join_with sep (y # ys)"

text \<open>\<open>JSON.stringify\<close> without indentation, as the application calls it.\<close>

fun JSON_stringify :: "json \<Rightarrow> jstring" where
  "JSON_stringify JNull = js ''null''"
| "JSON_stringify (JBool b) = (if b then js ''true'' else js ''false'')"
| "JSON_stringify (JNum n) = show_int n"
| "JSON_stringify (JDec t) = t"
| "JSON_stringify (JStr s) = quote s"
| "JSON_stringify (JArr xs) = 0x5B # join_with 0x2C (map JSON_stringify xs) @ [0x5D]"
| "JSON_stringify (JObj kvs) =
     0x7B # join_with 0x2C (map (\<lambda>kv. quote (fst kv) @ 0x3A # JSON_stringify (snd kv)) kvs) @ [0x7D]"


section \<open>The records of the application (types.ts) as JavaScript values\<close>

text \<open>
  \<open>object\<close> builds an object from its properties in order; a property whose value is
  \<open>undefined\<close> (\<open>None\<close>) is left out, as \<open>JSON.stringify\<close> leaves it out.
\<close>

definition object :: "(jstring \<times> json option) list \<Rightarrow> json" where
  "object props = JObj (List.map_filter (\<lambda>kv. map_option (Pair (fst kv)) (snd kv)) props)"

definition strings_json :: "jstring list \<Rightarrow> json" where
  "strings_json xs = JArr (map JStr xs)"

fun ReminderType_name :: "ReminderType \<Rightarrow> jstring" where
  "ReminderType_name Fertilizer = js ''fertilizer''"
| "ReminderType_name Pesticide = js ''pesticide''"
| "ReminderType_name Watering = js ''watering''"
| "ReminderType_name Other = js ''other''"

text \<open>A reminder as \<open>handleAddSubmit\<close> builds it: \<open>id, title, type, plantName, date,
  completed\<close>.\<close>

definition reminder_json :: "Reminder \<Rightarrow> json" where
  "reminder_json r = object
     [(js ''id'', Some (JStr (r_id r))),
      (js ''title'', Some (JStr (r_title r))),
      (js ''type'', Some (JStr (ReminderType_name (r_type r)))),
      (js ''plantName'', map_option JStr (r_plantName r)),
      (js ''date'', Some (JStr (r_date r))),
      (js ''completed'', Some (JBool (r_completed r)))]"

definition reminders_json :: "Reminder list \<Rightarrow> json" where
  "reminders_json rs = JArr (map reminder_json rs)"

record PurchaseLink =
  pesticideName :: jstring
  url :: jstring

record Cures =
  organic :: "jstring list"
  chemical :: "jstring list"

record SoilData =
  phValue :: jstring
  nitrogen :: jstring
  phosphorus :: jstring
  potassium :: jstring
  organicMatter :: jstring
  suitableCrops :: "jstring list"
  improvementTips :: "jstring list"

record SeedData =
  seedName :: jstring
  seed_plantName :: jstring
  description :: jstring
  cultivationPlaces :: "jstring list"
  bestSoil :: jstring
  growthTips :: "jstring list"

datatype HistoryItemType = Analysis | Guide | SoilAnalysis | SeedAnalysis

record HistoryItem =
  h_id :: jstring
  h_timestamp :: int
  h_type :: HistoryItemType
  h_plantName :: jstring
  h_diseaseName :: "jstring option"
  h_severity :: "jstring option"
  h_symptoms :: "jstring list option"
  h_cures :: "Cures option"
  h_prevention :: "jstring list option"
  h_purchaseLinks :: "PurchaseLink list option"
  h_imageUrl :: "jstring option"
  h_guideContent :: "jstring option"
  h_soilData :: "SoilData option"
  h_seedData :: "SeedData option"

fun HistoryItemType_name :: "HistoryItemType \<Rightarrow> jstring" where
  "HistoryItemType_name Analysis = js ''analysis''"
| "HistoryItemType_name Guide = js ''guide''"
| "HistoryItemType_name SoilAnalysis = js ''soil-analysis''"
| "HistoryItemType_name SeedAnalysis = js ''seed-analysis''"

definition purchaseLink_json :: "PurchaseLink \<Rightarrow> json" where
  "purchaseLink_json l = object
     [(js ''pesticideName'', Some (JStr (pesticideName l))),
      (js ''url'', Some (JStr (url l)))]"

definition cures_json :: "Cures \<Rightarrow> json" where
  "cures_json c = object
     [(js ''organic'', Some (strings_json (organic c))),
      (js ''chemical'', Some (strings_json (chemical c)))]"

definition soilData_json :: "SoilData \<Rightarrow> json" where
  "soilData_json d = object
     [(js ''phValue'', Some (JStr (phValue d))),
      (js ''nitrogen'', Some (JStr (nitrogen d))),
      (js ''phosphorus'', Some (JStr (phosphorus d))),
      (js ''potassium'', Some (JStr (potassium d))),
      (js ''organicMatter'', Some (JStr (organicMatter d))),
      (js ''suitableCrops'', Some (strings_json (suitableCrops d))),
      (js ''improvementTips'', Some (strings_json (improvementTips d)))]"

definition seedData_json :: "SeedData \<Rightarrow> json" where
  "seedData_json d = object
     [(js ''seedName'', Some (JStr (seedName d))),
      (js ''plantName'', Some (JStr (seed_plantName d))),
      (js ''description'', Some (JStr (description d))),
      (js ''cultivationPlaces'', Some (strings_json (cultivationPlaces d))),
      (js ''bestSoil'', Some (JStr (bestSoil d))),
      (js ''growthTips'', Some (strings_json (growthTips d)))]"

text \<open>A history item with its properties in the order of the interface.\<close>

definition historyItem_json :: "HistoryItem \<Rightarrow> json" where
  "historyItem_json h = object
     [(js ''id'', Some (JStr (h_id h))),
      (js ''timestamp'', Some (JNum (h_timestamp h))),
      (js ''type'', Some (JStr (HistoryItemType_name (h_type h)))),
      (js ''plantName'', Some (JStr (h_plantName h))),
      (js ''diseaseName'', map_option JStr (h_diseaseName h)),
      (js ''severity'', map_option JStr (h_severity h)),
      (js ''symptoms'', map_option strings_json (h_symptoms h)),
      (js ''cures'', map_option cures_json (h_cures h)),
      (js ''prevention'', map_option strings_json (h_prevention h)),
      (js ''purchaseLinks'', map_option (\<lambda>ls. JArr (map purchaseLink_json ls)) (h_purchaseLinks h)),
      (js ''imageUrl'', map_option JStr (h_imageUrl h)),
      (js ''guideContent'', map_option JStr (h_guideContent h)),
      (js ''soilData'', map_option soilData_json (h_soilData h)),
      (js ''seedData'', map_option seedData_json (h_seedData h))]"

definition history_json :: "HistoryItem list \<Rightarrow> json" where
  "history_json hs = JArr (map historyItem_json hs)"

section \<open>The state of \<open>App\<close> and its write-through operations (App.tsx)\<close>

text \<open>
  The React state \<open>history\<close> and \<open>reminders\<close> of one render, and \<open>localStorage\<close>.
  Each handler below is given the state of the render it was created in and yields the
  state of the next render. The handlers of the reminders are called from clicks, at
  once, so the render they were created in is the one on screen.
\<close>

record app =
  history :: "HistoryItem list"
  reminders :: "Reminder list"
  store :: storage

definition HISTORY_KEY :: jstring where
  "HISTORY_KEY = js ''flora_guard_history''"

definition REMINDERS_KEY :: jstring where
  "REMINDERS_KEY = js ''flora_guard_reminders''"

definition saveToHistory :: "HistoryItem \<Rightarrow> app \<Rightarrow> app" where
  "saveToHistory item s =
     (let updatedHistory = item # history s
      in s\<lparr> history := updatedHistory,
             store := setItem (store s) HISTORY_KEY (JSON_stringify (history_json updatedHistory)) \<rparr>)"

definition saveReminders :: "Reminder list \<Rightarrow> app \<Rightarrow> app" where
  "saveReminders updated s =
     s\<lparr> reminders := updated,
        store := setItem (store s) REMINDERS_KEY (JSON_stringify (reminders_json updated)) \<rparr>"

definition handleAddReminder :: "Reminder \<Rightarrow> app \<Rightarrow> app" where
  "handleAddReminder reminder s = saveReminders (reminders s @ [reminder]) s"

definition handleToggleReminder :: "jstring \<Rightarrow> app \<Rightarrow> app" where
  "handleToggleReminder i s =
     saveReminders (map (\<lambda>r. if r_id r = i then r\<lparr> r_completed := \<not> r_completed r \<rparr> else r)
                      (reminders s)) s"

definition handleDeleteReminder :: "jstring \<Rightarrow> app \<Rightarrow> app" where
  "handleDeleteReminder i s = saveReminders (filter (\<lambda>r. r_id r \<noteq> i) (reminders s)) s"

text \<open>The \<open>Clear All\<close> button, once confirmed.\<close>

definition clearHistory :: "app \<Rightarrow> app" where
  "clearHistory s = s\<lparr> history := [], store := (store s)(HISTORY_KEY := None) \<rparr>"

text \<open>
  \<open>saveToHistory\<close> is created anew in every render of \<open>App\<close>, and \<open>history\<close> in its
  body is the history of that render. The handlers that call it do so after an \<open>await\<close>
  (\<open>handleImageAnalysis\<close> in App.tsx, and through the prop \<open>onAddToHistory\<close> the
  \<open>handleChatSubmit\<close> of GardenCare.tsx and the handlers of the soil and seed views):
  what they call is the \<open>saveToHistory\<close> of the render in which they started. So the
  call made once the promise has settled, in the state \<open>s\<close> of that moment, computes
  from the history \<open>captured\<close> at the start, while \<open>setHistory\<close> and \<open>localStorage\<close> act
  on the present.
\<close>

definition saveToHistory_captured :: "HistoryItem list \<Rightarrow> HistoryItem \<Rightarrow> app \<Rightarrow> app" where
  "saveToHistory_captured captured item s = saveToHistory item (s\<lparr> history := captured \<rparr>)"

section \<open>Properties of the history ledger and the reminder registry\<close>

lemma saveToHistory_history: "history (saveToHistory item s) = item # history s"
  by (simp add: saveToHistory_def Let_def)

lemma saveToHistory_persists:
  "getItem (store (saveToHistory item s)) HISTORY_KEY
     = Some (JSON_stringify (history_json (history (saveToHistory item s))))"
  by (simp add: saveToHistory_def Let_def getItem_def setItem_def)

lemma saveToHistory_reminders: "reminders (saveToHistory item s) = reminders s"
  by (simp add: saveToHistory_def Let_def)

text \<open>What a call leaves depends on the captured history alone, not on the history of
  the moment.\<close>

lemma saveToHistory_captured_history:
  "history (saveToHistory_captured captured item s) = item # captured"
  by (simp add: saveToHistory_captured_def saveToHistory_def Let_def)

lemma saveToHistory_captured_persists:
  "getItem (store (saveToHistory_captured captured item s)) HISTORY_KEY
     = Some (JSON_stringify (history_json (item # captured)))"
  by (simp add: saveToHistory_captured_def saveToHistory_def Let_def getItem_def setItem_def)

definition demo_item :: HistoryItem where
  "demo_item =
     \<lparr> h_id = js ''h1'', h_timestamp = 1793631600000, h_type = Guide, h_plantName = js ''Rose'',
       h_diseaseName = None, h_severity = None, h_symptoms = None, h_cures = None,
       h_prevention = None, h_purchaseLinks = None, h_imageUrl = None,
       h_guideContent = Some (js ''Water twice a week.''), h_soilData = None, h_seedData = None \<rparr>"

definition demo_app :: app where
  "demo_app =
     \<lparr> history = [], reminders = [demo_reminder],
       store = Map.empty(REMINDERS_KEY \<mapsto> JSON_stringify (reminders_json [demo_reminder])) \<rparr>"

definition demo_analysis :: HistoryItem where
  "demo_analysis =
     \<lparr> h_id = js ''h2'', h_timestamp = 1793631540000, h_type = Analysis,
       h_plantName = js ''Tomato'',
       h_diseaseName = Some (js ''Early blight''), h_severity = Some (js ''Moderate''),
       h_symptoms = Some [js ''Brown spots''], h_cures = None,
       h_prevention = None, h_purchaseLinks = None, h_imageUrl = Some (js ''aGVsbG8=''),
       h_guideContent = None, h_soilData = None, h_seedData = None \<rparr>"

text \<open>
  C4 fails on the code. The history is empty. An image analysis and a garden guide are
  both requested before either has answered (the sidebar stays usable while the analysis
  runs), so both handlers hold the \<open>saveToHistory\<close> of a render whose history is empty.
  The analysis answers first and is appended; then the guide answers, and its call puts
  the guide in front of the empty history it captured: the analysis, stored a moment
  before, is gone from the history and from the store, where the claim has the history
  read guide, analysis.
\<close>

theorem overlapping_saves_drop_item:
  "history demo_app = []
   \<and> history (saveToHistory demo_analysis demo_app) = [demo_analysis]
   \<and> history (saveToHistory_captured (history demo_app) demo_item
                (saveToHistory demo_analysis demo_app)) = [demo_item]
   \<and> getItem (store (saveToHistory_captured (history demo_app) demo_item
                        (saveToHistory demo_analysis demo_app))) HISTORY_KEY
       = Some (JSON_stringify (history_json [demo_item]))
   \<and> demo_analysis \<notin> set (history (saveToHistory_captured (history demo_app) demo_item
                                     (saveToHistory demo_analysis demo_app)))"
proof -
  have e: "history demo_app = []" by (simp add: demo_app_def)
  have d: "demo_analysis \<noteq> demo_item" by (simp add: demo_analysis_def demo_item_def)
  from e d show ?thesis
    by (simp add: saveToHistory_history saveToHistory_captured_history
        saveToHistory_captured_persists)
qed

lemma toggle_twice_list:
  "map ((\<lambda>r. if r_id r = i then r\<lparr> r_completed := \<not> r_completed r \<rparr> else r)
        \<circ> (\<lambda>r. if r_id r = i then r\<lparr> r_completed := \<not> r_completed r \<rparr> else r)) rs = rs"
  by (induction rs) simp_all

lemma toggle_absent_list:
  "i \<notin> r_id ` set rs \<Longrightarrow>
   map (\<lambda>r. if r_id r = i then r\<lparr> r_completed := \<not> r_completed r \<rparr> else r) rs = rs"
  by (induction rs) auto

lemma toggle_twice_reminders:
  "reminders (handleToggleReminder i (handleToggleReminder i s)) = reminders s"
  by (simp add: handleToggleReminder_def saveReminders_def toggle_twice_list)

lemma toggle_persists:
  "getItem (store (handleToggleReminder i s)) REMINDERS_KEY
     = Some (JSON_stringify (reminders_json (reminders (handleToggleReminder i s))))"
  by (simp add: handleToggleReminder_def saveReminders_def getItem_def setItem_def)

lemma saveReminders_same:
  assumes "getItem (store s) REMINDERS_KEY = Some (JSON_stringify (reminders_json (reminders s)))"
  shows "saveReminders (reminders s) s = s"
proof -
  from assms have "(store s)(REMINDERS_KEY \<mapsto> JSON_stringify (reminders_json (reminders s))) = store s"
    by (simp add: getItem_def fun_upd_idem)
  then show ?thesis by (simp add: saveReminders_def setItem_def)
qed

lemma saveReminders_twice: "saveReminders ys (saveReminders xs s) = saveReminders ys s"
  by (simp add: saveReminders_def setItem_def)

text \<open>
  C6. Toggling the same id twice gives back the registry as it was, so every reminder
  has its \<open>completed\<close> flag back and the serialization of the registry is the same
  text; that text is what the store holds afterwards, and when the store held it before
  (as it does after any save) the whole state, store included, is as before the two
  toggles. For an id that no reminder has, one toggle already leaves the registry as it
  was (and the state too, when the store held the registry's serialization).
\<close>

theorem toggle_twice_restores:
  "reminders (handleToggleReminder i (handleToggleReminder i s)) = reminders s
   \<and> JSON_stringify (reminders_json (reminders (handleToggleReminder i (handleToggleReminder i s))))
       = JSON_stringify (reminders_json (reminders s))
   \<and> getItem (store (handleToggleReminder i (handleToggleReminder i s))) REMINDERS_KEY
       = Some (JSON_stringify (reminders_json (reminders s)))
   \<and> (getItem (store s) REMINDERS_KEY = Some (JSON_stringify (reminders_json (reminders s)))
        \<longrightarrow> handleToggleReminder i (handleToggleReminder i s) = s)
   \<and> (i \<notin> r_id ` set (reminders s)
        \<longrightarrow> reminders (handleToggleReminder i s) = reminders s
            \<and> (getItem (store s) REMINDERS_KEY = Some (JSON_stringify (reminders_json (reminders s)))
                 \<longrightarrow> handleToggleReminder i s = s))"
proof -
  have twice: "handleToggleReminder i (handleToggleReminder i s) = saveReminders (reminders s) s"
    by (simp add: handleToggleReminder_def saveReminders_def setItem_def toggle_twice_list)
  have absent: "handleToggleReminder i s = saveReminders (reminders s) s"
    if "i \<notin> r_id ` set (reminders s)"
    using that by (simp add: handleToggleReminder_def toggle_absent_list)
  have stored: "getItem (store (saveReminders (reminders s) s)) REMINDERS_KEY
      = Some (JSON_stringify (reminders_json (reminders s)))"
    by (simp add: saveReminders_def getItem_def setItem_def)
  have kept: "reminders (saveReminders (reminders s) s) = reminders s"
    by (simp add: saveReminders_def)
  show ?thesis
    using twice absent stored kept saveReminders_same[of s] by auto
qed

theorem toggle_twice_restores_witness:
  "getItem (store demo_app) REMINDERS_KEY = Some (JSON_stringify (reminders_json (reminders demo_app)))
   \<and> js ''r1'' \<in> r_id ` set (reminders demo_app)
   \<and> map r_completed (reminders (handleToggleReminder (js ''r1'') demo_app)) = [True]
   \<and> handleToggleReminder (js ''r1'') (handleToggleReminder (js ''r1'') demo_app) = demo_app
   \<and> js ''r2'' \<notin> r_id ` set (reminders demo_app)
   \<and> handleToggleReminder (js ''r2'') demo_app = demo_app"
proof -
  have sync: "getItem (store demo_app) REMINDERS_KEY
      = Some (JSON_stringify (reminders_json (reminders demo_app)))"
    by (simp add: demo_app_def getItem_def)
  have present: "js ''r1'' \<in> r_id ` set (reminders demo_app)"
    by (simp add: demo_app_def demo_reminder_def)
  have absent: "js ''r2'' \<notin> r_id ` set (reminders demo_app)"
    by (simp add: demo_app_def demo_reminder_def)
  have flipped: "map r_completed (reminders (handleToggleReminder (js ''r1'') demo_app)) = [True]"
    by (simp add: handleToggleReminder_def saveReminders_def demo_app_def demo_reminder_def)
  from toggle_twice_restores [of "js ''r1''" demo_app]
    toggle_twice_restores [of "js ''r2''" demo_app] sync present absent flipped
  show ?thesis by blast
qed

section \<open>Translations of chat messages (GardenCare.tsx, handleTranslate)\<close>

datatype Role = RoleUser | RoleModel

datatype Lang = Hi | Ml

record Translations =
  hi :: "jstring option"
  ml :: "jstring option"

record Message =
  m_role :: Role
  m_text :: jstring
  m_image :: "jstring option"
  m_isAnalysis :: "bool option"
  m_analysis :: "HistoryItem option"
  m_translations :: "Translations option"

text \<open>\<open>msg.translations?.[lang]\<close>: \<open>undefined\<close> when there is no \<open>translations\<close> object or
  it has no such property.\<close>

definition translation_of :: "Message \<Rightarrow> Lang \<Rightarrow> jstring option" where
  "translation_of msg lang =
     (case m_translations msg of
        None \<Rightarrow> None
      | Some t \<Rightarrow> (case lang of Hi \<Rightarrow> hi t | Ml \<Rightarrow> ml t))"

text \<open>Truthiness of an optional string: \<open>undefined\<close> and the empty string are falsy.\<close>

definition truthy :: "jstring option \<Rightarrow> bool" where
  "truthy v = (case v of None \<Rightarrow> False | Some s \<Rightarrow> s \<noteq> [])"

text \<open>\<open>{ ...msg.translations, [lang]: translated }\<close>; spreading \<open>undefined\<close> gives no
  properties.\<close>

definition with_translation :: "Translations option \<Rightarrow> Lang \<Rightarrow> jstring \<Rightarrow> Translations" where
  "with_translation old lang translated =
     (let t = (case old of None \<Rightarrow> \<lparr> hi = None, ml = None \<rparr> | Some t \<Rightarrow> t)
      in case lang of Hi \<Rightarrow> t\<lparr> hi := Some translated \<rparr> | Ml \<Rightarrow> t\<lparr> ml := Some translated \<rparr>)"

definition targetLang :: "Lang \<Rightarrow> jstring" where
  "targetLang lang = (if lang = Hi then js ''Hindi'' else js ''Malayalam'')"

text \<open>
  The state of the component: its messages, whether a chat request is in flight, the
  index being translated, and the calls of \<open>translateText\<close> made so far (text and
  target language), which is what a call-counting stand-in of the collaborator would
  record.
\<close>

record garden =
  chatMessages :: "Message list"
  isChatLoading :: bool
  translatingIndex :: "nat option"
  calls :: "(jstring \<times> jstring) list"

text \<open>The promise of \<open>translateText\<close> resolves to a string or rejects.\<close>

datatype outcome = Resolved jstring | Rejected

text \<open>
  \<open>handleTranslate\<close> runs up to its \<open>await\<close>, and what stands after the \<open>await\<close> runs
  when the promise settles, on the \<open>chatMessages\<close> and \<open>msg\<close> the handler captured when
  it was called. \<open>handleTranslate_start\<close> is the first part: it fails with a
  \<open>TypeError\<close> when there is no message at the index (\<open>msg\<close> is \<open>undefined\<close>), returns
  at once on a cached translation, and otherwise sets \<open>translatingIndex\<close>, calls the
  collaborator and waits.
\<close>

record pending =
  p_chatMessages :: "Message list"
  p_msg :: Message
  p_index :: nat
  p_lang :: Lang

datatype started = Returned | Awaiting pending

definition handleTranslate_start :: "nat \<Rightarrow> Lang \<Rightarrow> garden \<Rightarrow> js_error + started \<times> garden" where
  "handleTranslate_start index lang g =
     (if index < length (chatMessages g) then
        let msg = chatMessages g ! index in
        if truthy (translation_of msg lang) then Inr (Returned, g)
        else Inr (Awaiting \<lparr> p_chatMessages = chatMessages g, p_msg = msg,
                              p_index = index, p_lang = lang \<rparr>,
                  g\<lparr> translatingIndex := Some index,
                     calls := calls g @ [(m_text msg, targetLang lang)] \<rparr>)
      else Inl TypeError)"

text \<open>The part after the \<open>await\<close>, on the state \<open>g\<close> found when the promise settles.\<close>

definition handleTranslate_resume :: "pending \<Rightarrow> outcome \<Rightarrow> garden \<Rightarrow> garden" where
  "handleTranslate_resume p result g =
     (case result of
        Resolved translated \<Rightarrow>
          if translated \<noteq> [] then
            let updatedMessages = (p_chatMessages p)
                  [p_index p := (p_msg p)\<lparr> m_translations :=
                      Some (with_translation (m_translations (p_msg p)) (p_lang p) translated) \<rparr>]
            in g\<lparr> chatMessages := updatedMessages, translatingIndex := None \<rparr>
          else g\<lparr> translatingIndex := None \<rparr>
      | Rejected \<Rightarrow> g\<lparr> translatingIndex := None \<rparr>)"

text \<open>
  Between the two parts the view goes on: the buttons of the other messages are enabled
  (only \<open>translatingIndex === i\<close> disables a button) and so is the chat form.
  \<open>handleChatSubmit_start\<close> is \<open>handleChatSubmit\<close> up to its \<open>await\<close>, with \<open>plantName\<close>
  for \<open>chatInput.trim()\<close>: it returns at once on an empty name or while a chat request is
  in flight, and otherwise appends the user's message with the functional update
  \<open>setChatMessages(prev => [...prev, userMsg])\<close>, which works on the messages of the
  moment.
\<close>

definition handleChatSubmit_start :: "jstring \<Rightarrow> garden \<Rightarrow> garden" where
  "handleChatSubmit_start plantName g =
     (if plantName = [] \<or> isChatLoading g then g
      else g\<lparr> chatMessages := chatMessages g @
                 [\<lparr> m_role = RoleUser, m_text = plantName, m_image = None,
                    m_isAnalysis = None, m_analysis = None, m_translations = None \<rparr>],
              isChatLoading := True \<rparr>)"

section \<open>Properties of the translation cache\<close>

lemma translation_of_with:
  "translation_of (msg\<lparr> m_translations := Some (with_translation old lang t) \<rparr>) lang = Some t"
  by (cases lang) (simp_all add: translation_of_def with_translation_def Let_def)

lemma translation_of_other:
  "lang' \<noteq> lang \<Longrightarrow>
   translation_of (msg\<lparr> m_translations := Some (with_translation (m_translations msg) lang t) \<rparr>) lang'
     = translation_of msg lang'"
  by (cases lang; cases lang')
     (simp_all add: translation_of_def with_translation_def Let_def split: option.splits)

text \<open>A request for a translation that is cached returns before its \<open>await\<close>: no call
  of the collaborator, no change of state.\<close>

lemma handleTranslate_start_hit:
  assumes "index < length (chatMessages g)"
    and "truthy (translation_of (chatMessages g ! index) lang)"
  shows "handleTranslate_start index lang g = Inr (Returned, g)"
  using assms by (simp add: handleTranslate_start_def Let_def)

text \<open>A request for a translation that is not cached calls the collaborator.\<close>

lemma handleTranslate_start_miss:
  assumes "index < length (chatMessages g)"
    and "\<not> truthy (translation_of (chatMessages g ! index) lang)"
  shows "handleTranslate_start index lang g =
     Inr (Awaiting \<lparr> p_chatMessages = chatMessages g, p_msg = chatMessages g ! index,
                      p_index = index, p_lang = lang \<rparr>,
          g\<lparr> translatingIndex := Some index,
             calls := calls g @ [(m_text (chatMessages g ! index), targetLang lang)] \<rparr>)"
  using assms by (simp add: handleTranslate_start_def Let_def)

text \<open>
  What the part after the \<open>await\<close> writes is the list the handler captured, with the
  message at the index replaced, whatever the messages of the view are by then.
\<close>

lemma handleTranslate_resume_captured:
  "translated \<noteq> [] \<Longrightarrow>
   chatMessages (handleTranslate_resume p (Resolved translated) g)
     = (p_chatMessages p)[p_index p := (p_msg p)\<lparr> m_translations :=
          Some (with_translation (m_translations (p_msg p)) (p_lang p) translated) \<rparr>]"
  by (simp add: handleTranslate_resume_def)

subsection \<open>A view with three messages\<close>

text \<open>The greeting of the component, a plant name sent by the user, and the guide that
  came back.\<close>

definition demo_greeting :: Message where
  "demo_greeting =
     \<lparr> m_role = RoleModel,
       m_text = js ''Hi! I am your Garden Master. **Just type a plant name** (e.g., *Hibiscus*, *Rose*, *Tulsi*) and I will provide a complete guide on potting mix, watering, pests, and maintenance schedules.'',
       m_image = None,
       m_isAnalysis = None, m_analysis = None, m_translations = None \<rparr>"

definition demo_question :: Message where
  "demo_question =
     \<lparr> m_role = RoleUser, m_text = js ''Rose'', m_image = None,
       m_isAnalysis = None, m_analysis = None, m_translations = None \<rparr>"

definition demo_guide :: Message where
  "demo_guide =
     \<lparr> m_role = RoleModel, m_text = js ''Water the rose twice a week.'', m_image = None,
       m_isAnalysis = None, m_analysis = None, m_translations = None \<rparr>"

definition demo_view :: garden where
  "demo_view =
     \<lparr> chatMessages = [demo_greeting, demo_question, demo_guide], isChatLoading = False,
       translatingIndex = None, calls = [] \<rparr>"

text \<open>The request for the Hindi translation of the guide (index 2), waiting.\<close>

definition demo_pending_guide :: pending where
  "demo_pending_guide =
     \<lparr> p_chatMessages = [demo_greeting, demo_question, demo_guide], p_msg = demo_guide,
       p_index = Suc (Suc 0), p_lang = Hi \<rparr>"

definition demo_view_1 :: garden where
  "demo_view_1 =
     \<lparr> chatMessages = [demo_greeting, demo_question, demo_guide], isChatLoading = False,
       translatingIndex = Some (Suc (Suc 0)),
       calls = [(m_text demo_guide, js ''Hindi'')] \<rparr>"

text \<open>The request for the Hindi translation of the greeting (index 0), made while the
  first one waits.\<close>

definition demo_pending_greeting :: pending where
  "demo_pending_greeting =
     \<lparr> p_chatMessages = [demo_greeting, demo_question, demo_guide], p_msg = demo_greeting,
       p_index = 0, p_lang = Hi \<rparr>"

definition demo_view_2 :: garden where
  "demo_view_2 =
     \<lparr> chatMessages = [demo_greeting, demo_question, demo_guide], isChatLoading = False,
       translatingIndex = Some 0,
       calls = [(m_text demo_guide, js ''Hindi''),
                (m_text demo_greeting, js ''Hindi'')] \<rparr>"

definition demo_hindi_guide :: jstring where
  "demo_hindi_guide = js ''(the guide in Hindi)''"

definition demo_hindi_greeting :: jstring where
  "demo_hindi_greeting = js ''(the greeting in Hindi)''"

text \<open>The view after the guide's translation has arrived, and after the greeting's has
  arrived next.\<close>

definition demo_view_3 :: garden where
  "demo_view_3 =
     \<lparr> chatMessages =
         [demo_greeting, demo_question,
          demo_guide\<lparr> m_translations := Some \<lparr> hi = Some demo_hindi_guide, ml = None \<rparr> \<rparr>],
       isChatLoading = False, translatingIndex = None,
       calls = [(m_text demo_guide, js ''Hindi''),
                (m_text demo_greeting, js ''Hindi'')] \<rparr>"

definition demo_view_4 :: garden where
  "demo_view_4 =
     \<lparr> chatMessages =
         [demo_greeting\<lparr> m_translations := Some \<lparr> hi = Some demo_hindi_greeting, ml = None \<rparr> \<rparr>,
          demo_question, demo_guide],
       isChatLoading = False, translatingIndex = None,
       calls = [(m_text demo_guide, js ''Hindi''),
                (m_text demo_greeting, js ''Hindi'')] \<rparr>"

lemma demo_start_guide:
  "handleTranslate_start (Suc (Suc 0)) Hi demo_view = Inr (Awaiting demo_pending_guide, demo_view_1)"
  by (simp add: handleTranslate_start_def Let_def demo_view_def demo_view_1_def
      demo_pending_guide_def demo_guide_def translation_of_def truthy_def targetLang_def)

lemma demo_start_greeting:
  "handleTranslate_start 0 Hi demo_view_1 = Inr (Awaiting demo_pending_greeting, demo_view_2)"
  by (simp add: handleTranslate_start_def Let_def demo_view_1_def demo_view_2_def
      demo_pending_greeting_def demo_greeting_def translation_of_def truthy_def targetLang_def)

lemma demo_resume_guide:
  "handleTranslate_resume demo_pending_guide (Resolved demo_hindi_guide) demo_view_2 = demo_view_3"
  by (simp add: handleTranslate_resume_def demo_pending_guide_def demo_view_2_def demo_view_3_def
      demo_hindi_guide_def with_translation_def demo_guide_def)

lemma demo_resume_greeting:
  "handleTranslate_resume demo_pending_greeting (Resolved demo_hindi_greeting) demo_view_3
     = demo_view_4"
  by (simp add: handleTranslate_resume_def demo_pending_greeting_def demo_view_3_def
      demo_view_4_def demo_hindi_greeting_def with_translation_def demo_greeting_def)

text \<open>
  C9 fails on the code. The view holds the greeting, the question and the guide. The
  user asks for the Hindi translation of the guide and, while that request waits, for
  the Hindi translation of the greeting; both requests captured the list without
  translations. The guide's translation arrives and is cached: the first request for the
  guide has completed successfully. Then the greeting's translation arrives, and its
  continuation writes the list it captured with the greeting translated, which erases
  the guide's translation. The next request for the Hindi translation of the guide finds
  no cache and calls the collaborator again, for the same text and language as before,
  where the claim has it return the cached translation without a call.
\<close>

theorem second_request_calls_again:
  "handleTranslate_start (Suc (Suc 0)) Hi demo_view = Inr (Awaiting demo_pending_guide, demo_view_1)
   \<and> handleTranslate_start 0 Hi demo_view_1 = Inr (Awaiting demo_pending_greeting, demo_view_2)
   \<and> handleTranslate_resume demo_pending_guide (Resolved demo_hindi_guide) demo_view_2 = demo_view_3
   \<and> translation_of (chatMessages demo_view_3 ! Suc (Suc 0)) Hi = Some demo_hindi_guide
   \<and> handleTranslate_resume demo_pending_greeting (Resolved demo_hindi_greeting) demo_view_3
       = demo_view_4
   \<and> translation_of (chatMessages demo_view_4 ! Suc (Suc 0)) Hi = None
   \<and> handleTranslate_start (Suc (Suc 0)) Hi demo_view_4
       = Inr (Awaiting (demo_pending_guide
                 \<lparr> p_chatMessages := chatMessages demo_view_4 \<rparr>),
              demo_view_4
                 \<lparr> translatingIndex := Some (Suc (Suc 0)),
                   calls := [(m_text demo_guide, js ''Hindi''),
                             (m_text demo_greeting, js ''Hindi''),
                             (m_text demo_guide, js ''Hindi'')] \<rparr>)"
proof -
  have cached: "translation_of (chatMessages demo_view_3 ! Suc (Suc 0)) Hi = Some demo_hindi_guide"
    by (simp add: demo_view_3_def translation_of_def)
  have erased: "translation_of (chatMessages demo_view_4 ! Suc (Suc 0)) Hi = None"
    by (simp add: demo_view_4_def demo_guide_def translation_of_def)
  have again: "handleTranslate_start (Suc (Suc 0)) Hi demo_view_4
       = Inr (Awaiting (demo_pending_guide
                 \<lparr> p_chatMessages := chatMessages demo_view_4 \<rparr>),
              demo_view_4
                 \<lparr> translatingIndex := Some (Suc (Suc 0)),
                   calls := [(m_text demo_guide, js ''Hindi''),
                             (m_text demo_greeting, js ''Hindi''),
                             (m_text demo_guide, js ''Hindi'')] \<rparr>)"
    by (simp add: handleTranslate_start_def Let_def demo_view_4_def demo_pending_guide_def
        demo_guide_def translation_of_def truthy_def targetLang_def)
  from demo_start_guide demo_start_greeting demo_resume_guide cached demo_resume_greeting
    erased again
  show ?thesis by simp
qed

text \<open>The question the user sends while the translation of the guide waits.\<close>

definition demo_tulsi :: Message where
  "demo_tulsi =
     \<lparr> m_role = RoleUser, m_text = js ''Tulsi'', m_image = None,
       m_isAnalysis = None, m_analysis = None, m_translations = None \<rparr>"

text \<open>
  C10 fails on the code. The view holds the greeting, the question and the guide. The
  user asks for the Hindi translation of the guide (index 2) and, while the request
  waits, sends the next plant name; the user's message is appended at index 3. Then the
  translation arrives, and the continuation writes the three messages it captured with
  the guide translated: the message at index 3 is gone, where the claim has every
  message at an index other than 2 unchanged.
\<close>

theorem translation_drops_appended_message:
  "handleTranslate_start (Suc (Suc 0)) Hi demo_view = Inr (Awaiting demo_pending_guide, demo_view_1)
   \<and> chatMessages (handleChatSubmit_start (js ''Tulsi'') demo_view_1)
       = [demo_greeting, demo_question, demo_guide, demo_tulsi]
   \<and> chatMessages (handleTranslate_resume demo_pending_guide (Resolved demo_hindi_guide)
                      (handleChatSubmit_start (js ''Tulsi'') demo_view_1))
       = [demo_greeting, demo_question,
          demo_guide\<lparr> m_translations := Some \<lparr> hi = Some demo_hindi_guide, ml = None \<rparr> \<rparr>]"
proof -
  have sent: "chatMessages (handleChatSubmit_start (js ''Tulsi'') demo_view_1)
       = [demo_greeting, demo_question, demo_guide, demo_tulsi]"
    by (simp add: handleChatSubmit_start_def demo_view_1_def demo_tulsi_def)
  have ne: "demo_hindi_guide \<noteq> []" by (simp add: demo_hindi_guide_def)
  have written: "chatMessages (handleTranslate_resume demo_pending_guide (Resolved demo_hindi_guide)
                      (handleChatSubmit_start (js ''Tulsi'') demo_view_1))
       = [demo_greeting, demo_question,
          demo_guide\<lparr> m_translations := Some \<lparr> hi = Some demo_hindi_guide, ml = None \<rparr> \<rparr>]"
    unfolding handleTranslate_resume_captured[OF ne]
    by (simp add: demo_pending_guide_def with_translation_def demo_guide_def)
  from demo_start_guide sent written show ?thesis by simp
qed

section \<open>The month projection of the calendar view (Reminders.tsx)\<close>

text \<open>
  The platform's \<open>Date\<close>, as far as the component uses it: \<open>new_Date s\<close> is the time
  value of \<open>new Date(s)\<close> in milliseconds (\<open>None\<close> for an invalid date, whose getters
  answer \<open>NaN\<close>), and \<open>getMonth\<close> and \<open>getFullYear\<close> read a time value in the time
  zone of the browser.
\<close>

record calendar =
  new_Date :: "jstring \<Rightarrow> int option"
  getMonth :: "int \<Rightarrow> nat"
  getFullYear :: "int \<Rightarrow> int"

text \<open>The filter callback; \<open>NaN === n\<close> is false, so an invalid date is in no month.\<close>

definition in_month :: "calendar \<Rightarrow> int \<Rightarrow> Reminder \<Rightarrow> bool" where
  "in_month cal selectedDate r =
     (case new_Date cal (r_date r) of
        None \<Rightarrow> False
      | Some t \<Rightarrow> getMonth cal t = getMonth cal selectedDate
                 \<and> getFullYear cal t = getFullYear cal selectedDate)"

text \<open>The comparator \<open>new Date(a.date).getTime() - new Date(b.date).getTime()\<close>; \<open>None\<close> is
  \<open>NaN\<close>.\<close>

definition by_date :: "calendar \<Rightarrow> Reminder \<Rightarrow> Reminder \<Rightarrow> int option" where
  "by_date cal a b =
     (case new_Date cal (r_date a) of
        None \<Rightarrow> None
      | Some x \<Rightarrow> (case new_Date cal (r_date b) of None \<Rightarrow> None | Some y \<Rightarrow> Some (x - y)))"

text \<open>
  \<open>Array.prototype.sort\<close> with a comparator: \<open>SortCompare\<close> reads \<open>NaN\<close> as \<open>+0\<close>, and
  the sort is stable, so for a comparator that orders the elements consistently the
  result is that of a stable insertion sort (for other comparators ECMAScript leaves the
  order to the implementation).
\<close>

definition SortCompare :: "('a \<Rightarrow> 'a \<Rightarrow> int option) \<Rightarrow> 'a \<Rightarrow> 'a \<Rightarrow> int" where
  "SortCompare comparefn x y = (case comparefn x y of None \<Rightarrow> 0 | Some v \<Rightarrow> v)"

fun insert_sorted :: "('a \<Rightarrow> 'a \<Rightarrow> int option) \<Rightarrow> 'a \<Rightarrow> 'a list \<Rightarrow> 'a list" where
  "insert_sorted comparefn x [] = [x]"
| "insert_sorted comparefn x (y # ys) =
     (if SortCompare comparefn x y \<le> 0 then x # y # ys else y # insert_sorted comparefn x ys)"

definition sorted_copy :: "('a \<Rightarrow> 'a \<Rightarrow> int option) \<Rightarrow> 'a list \<Rightarrow> 'a list" where
  "sorted_copy comparefn xs = foldr (insert_sorted comparefn) xs []"

text \<open>
  Arrays are objects: \<open>filter\<close> creates a new array and \<open>sort\<close> rearranges the array it
  is called on. The arrays in memory are a list, a reference is an index into it, and a
  new array goes to the end.
\<close>

type_synonym 'a arrays = "'a list list"

definition Array_filter :: "('a \<Rightarrow> bool) \<Rightarrow> nat \<Rightarrow> 'a arrays \<Rightarrow> nat \<times> 'a arrays" where
  "Array_filter p a h = (length h, h @ [filter p (h ! a)])"

definition Array_sort :: "('a \<Rightarrow> 'a \<Rightarrow> int option) \<Rightarrow> nat \<Rightarrow> 'a arrays \<Rightarrow> nat \<times> 'a arrays" where
  "Array_sort comparefn a h = (a, h[a := sorted_copy comparefn (h ! a)])"

text \<open>\<open>filteredReminders\<close> of the calendar view; \<open>remindersProp\<close> refers to the array the
  component got as its \<open>reminders\<close> prop. Neither call has access to \<open>localStorage\<close>.\<close>

definition filteredReminders :: "calendar \<Rightarrow> int \<Rightarrow> nat \<Rightarrow> Reminder arrays \<Rightarrow> nat \<times> Reminder arrays" where
  "filteredReminders cal selectedDate remindersProp h =
     (let (a1, h1) = Array_filter (in_month cal selectedDate) remindersProp h
      in Array_sort (by_date cal) a1 h1)"

text \<open>Ascending by date: both dates are valid and the first is not later.\<close>

definition date_le :: "calendar \<Rightarrow> Reminder \<Rightarrow> Reminder \<Rightarrow> bool" where
  "date_le cal a b =
     (case new_Date cal (r_date a) of
        None \<Rightarrow> False
      | Some x \<Rightarrow> (case new_Date cal (r_date b) of None \<Rightarrow> False | Some y \<Rightarrow> x \<le> y))"

lemma mset_insert_sorted: "mset (insert_sorted c x ys) = add_mset x (mset ys)"
  by (induction ys) simp_all

lemma mset_sorted_copy: "mset (sorted_copy c xs) = mset xs"
  by (induction xs) (simp_all add: sorted_copy_def mset_insert_sorted)

lemma set_insert_sorted: "set (insert_sorted c x ys) = insert x (set ys)"
  by (induction ys) auto

lemma sorted_insert_sorted:
  assumes "new_Date cal (r_date x) \<noteq> None" and "\<forall>y \<in> set ys. new_Date cal (r_date y) \<noteq> None"
    and "sorted_wrt (date_le cal) ys"
  shows "sorted_wrt (date_le cal) (insert_sorted (by_date cal) x ys)"
  using assms
proof (induction ys)
  case Nil
  then show ?case by simp
next
  case (Cons y ys)
  then show ?case
    by (auto simp: set_insert_sorted SortCompare_def by_date_def date_le_def split: option.splits)
qed

lemma sorted_sorted_copy:
  assumes "\<forall>y \<in> set xs. new_Date cal (r_date y) \<noteq> None"
  shows "sorted_wrt (date_le cal) (sorted_copy (by_date cal) xs)"
  using assms
proof (induction xs)
  case Nil
  then show ?case by (simp add: sorted_copy_def)
next
  case (Cons x xs)
  then have "sorted_wrt (date_le cal) (sorted_copy (by_date cal) xs)" by simp
  moreover have "\<forall>y \<in> set (sorted_copy (by_date cal) xs). new_Date cal (r_date y) \<noteq> None"
    using Cons.prems mset_sorted_copy[of "by_date cal" xs] by (metis list.set_intros(2) mset_eq_setD)
  ultimately show ?case
    using Cons.prems sorted_insert_sorted[of cal x "sorted_copy (by_date cal) xs"]
    by (simp add: sorted_copy_def)
qed

text \<open>
  C8. For every registry and every selected month: the month projection is a new array
  that holds exactly the reminders of the registry (each as often as the registry has it)
  whose date is valid and has the month and the year of the selected date, in ascending
  order of date; the registry's own array, like every array that existed before, is what
  it was.
\<close>

theorem month_projection:
  assumes "remindersProp < length h"
    and "filteredReminders cal selectedDate remindersProp h = (a, h')"
  shows "take (length h) h' = h
         \<and> h' ! remindersProp = h ! remindersProp
         \<and> a < length h'
         \<and> mset (h' ! a) = filter_mset (in_month cal selectedDate) (mset (h ! remindersProp))
         \<and> (\<forall>r. r \<in> set (h' ! a) \<longleftrightarrow>
               r \<in> set (h ! remindersProp)
               \<and> (\<exists>t. new_Date cal (r_date r) = Some t
                      \<and> getMonth cal t = getMonth cal selectedDate
                      \<and> getFullYear cal t = getFullYear cal selectedDate))
         \<and> sorted_wrt (date_le cal) (h' ! a)"
proof -
  let ?f = "filter (in_month cal selectedDate) (h ! remindersProp)"
  from assms(2) have a: "a = length h"
    and h': "h' = h @ [sorted_copy (by_date cal) ?f]"
    by (simp_all add: filteredReminders_def Array_filter_def Array_sort_def)
  have res: "h' ! a = sorted_copy (by_date cal) ?f" by (simp add: a h')
  have valid: "\<forall>y \<in> set ?f. new_Date cal (r_date y) \<noteq> None"
    by (auto simp: in_month_def split: option.splits)
  have m: "mset (h' ! a) = filter_mset (in_month cal selectedDate) (mset (h ! remindersProp))"
    by (simp add: res mset_sorted_copy)
  have s: "set (h' ! a) = set ?f"
    using mset_sorted_copy[of "by_date cal" ?f] res by (metis mset_eq_setD)
  have e: "\<forall>r. r \<in> set (h' ! a) \<longleftrightarrow>
               r \<in> set (h ! remindersProp)
               \<and> (\<exists>t. new_Date cal (r_date r) = Some t
                      \<and> getMonth cal t = getMonth cal selectedDate
                      \<and> getFullYear cal t = getFullYear cal selectedDate)"
    unfolding s by (auto simp: in_month_def split: option.splits)
  have o: "sorted_wrt (date_le cal) (h' ! a)"
    unfolding res by (rule sorted_sorted_copy[OF valid])
  from assms(1) have k: "h' ! remindersProp = h ! remindersProp" by (simp add: h' nth_append)
  have t: "take (length h) h' = h" by (simp add: h')
  have l: "a < length h'" by (simp add: a h')
  from t k l m e o show ?thesis by blast
qed

definition demo_calendar :: calendar where
  "demo_calendar =
     \<lparr> new_Date = (\<lambda>s. if s = js ''2026-11-02T09:00:00.000Z'' then Some 1793610000000
                       else if s = js ''2026-11-20T09:00:00.000Z'' then Some 1795165200000
                       else if s = js ''2026-12-05T09:00:00.000Z'' then Some 1796461200000
                       else None),
       getMonth = (\<lambda>t. if t < 1796083200000 then 10 else 11),
       getFullYear = (\<lambda>t. 2026) \<rparr>"

definition demo_registry :: "Reminder list" where
  "demo_registry =
     [demo_reminder\<lparr> r_id := js ''r3'', r_date := js ''2026-12-05T09:00:00.000Z'' \<rparr>,
      demo_reminder\<lparr> r_id := js ''r2'', r_date := js ''2026-11-20T09:00:00.000Z'' \<rparr>,
      demo_reminder\<lparr> r_id := js ''r4'', r_date := js ''someday'' \<rparr>,
      demo_reminder]"

lemma demo_projection:
  "filteredReminders demo_calendar 1793610000000 0 [demo_registry]
     = (1, [demo_registry,
            [demo_reminder,
             demo_reminder\<lparr> r_id := js ''r2'', r_date := js ''2026-11-20T09:00:00.000Z'' \<rparr>]])"
  by (simp add: filteredReminders_def Array_filter_def Array_sort_def sorted_copy_def
      in_month_def by_date_def SortCompare_def demo_calendar_def demo_registry_def
      demo_reminder_def)

theorem month_projection_witness:
  "(0::nat) < length [demo_registry]
   \<and> filteredReminders demo_calendar 1793610000000 0 [demo_registry]
       = (1, [demo_registry,
              [demo_reminder,
               demo_reminder\<lparr> r_id := js ''r2'', r_date := js ''2026-11-20T09:00:00.000Z'' \<rparr>]])
   \<and> [demo_registry,
        [demo_reminder,
         demo_reminder\<lparr> r_id := js ''r2'', r_date := js ''2026-11-20T09:00:00.000Z'' \<rparr>]] ! 0
       = [demo_registry] ! 0
   \<and> sorted_wrt (date_le demo_calendar)
        ([demo_registry,
          [demo_reminder,
           demo_reminder\<lparr> r_id := js ''r2'', r_date := js ''2026-11-20T09:00:00.000Z'' \<rparr>]] ! 1)"
proof -
  have l: "(0::nat) < length [demo_registry]" by simp
  from month_projection [OF l demo_projection] l demo_projection
  show ?thesis by blast
qed

section \<open>\<open>JSON.parse\<close>\<close>

text \<open>
  \<open>JSON.parse\<close> in two passes. The first pass cuts the text into tokens, skipping
  white space between them; the second pass reads the tokens with a stack of the arrays
  and objects that are still open. Either pass fails on a text that is not JSON, and
  \<open>JSON.parse\<close> then throws a \<open>SyntaxError\<close>.
\<close>

datatype token =
    TLBracket | TRBracket | TLBrace | TRBrace | TComma | TColon
  | TString jstring | TNumber int | TDecimal jstring
  | TTrue | TFalse | TNull

definition is_ws :: "nat \<Rightarrow> bool" where
  "is_ws c = (c = 0x20 \<or> c = 0x09 \<or> c = 0x0A \<or> c = 0x0D)"

definition is_digit :: "nat \<Rightarrow> bool" where
  "is_digit c = (48 \<le> c \<and> c \<le> 57)"

text \<open>Escapes inside a string: \<open>\"\<close>, \<open>\\\<close>, \<open>\/\<close>, \<open>\b\<close>, \<open>\f\<close>, \<open>\n\<close>, \<open>\r\<close>,
  \<open>\t\<close> and \<open>\uXXXX\<close> with four hexadecimal digits of either case.\<close>

definition hexval :: "nat \<Rightarrow> nat option" where
  "hexval c =
     (if 48 \<le> c \<and> c \<le> 57 then Some (c - 48)
      else if 97 \<le> c \<and> c \<le> 102 then Some (c - 87)
      else if 65 \<le> c \<and> c \<le> 70 then Some (c - 55)
      else None)"

definition hex4 :: "nat \<Rightarrow> nat \<Rightarrow> nat \<Rightarrow> nat \<Rightarrow> nat option" where
  "hex4 a b c d =
     (case hexval a of None \<Rightarrow> None | Some w \<Rightarrow>
      case hexval b of None \<Rightarrow> None | Some x \<Rightarrow>
      case hexval c of None \<Rightarrow> None | Some y \<Rightarrow>
      case hexval d of None \<Rightarrow> None | Some z \<Rightarrow>
        Some (4096 * w + 256 * x + 16 * y + z))"

definition unescape :: "nat \<Rightarrow> nat option" where
  "unescape e =
     (if e = 0x22 then Some 0x22
      else if e = 0x5C then Some 0x5C
      else if e = 0x2F then Some 0x2F
      else if e = 0x62 then Some 0x08
      else if e = 0x66 then Some 0x0C
      else if e = 0x6E then Some 0x0A
      else if e = 0x72 then Some 0x0D
      else if e = 0x74 then Some 0x09
      else None)"

definition read_escape :: "jstring \<Rightarrow> (nat \<times> jstring) option" where
  "read_escape cs =
     (case cs of
        [] \<Rightarrow> None
      | e # r \<Rightarrow>
          if e = 0x75 then
            (case r of
               a # b # c # d # r' \<Rightarrow> map_option (\<lambda>u. (u, r')) (hex4 a b c d)
             | _ \<Rightarrow> None)
          else map_option (\<lambda>u. (u, r)) (unescape e))"

lemma read_escape_shorter: "read_escape cs = Some (u, r) \<Longrightarrow> length r < length cs"
  by (auto simp: read_escape_def split: list.splits if_splits)

text \<open>
  The characters of a string after its opening quote, up to the closing quote: the
  string they denote and the text after the closing quote. A control character below
  \<open>0x20\<close> must be escaped, and the text must not end inside the string.
\<close>

function lex_string :: "jstring \<Rightarrow> (jstring \<times> jstring) option" where
  "lex_string [] = None"
| "lex_string (c # cs) =
     (if c = 0x22 then Some ([], cs)
      else if c = 0x5C then
        (case read_escape cs of
           None \<Rightarrow> None
         | Some (u, r) \<Rightarrow> map_option (\<lambda>(s, r'). (u # s, r')) (lex_string r))
      else if c < 0x20 then None
      else map_option (\<lambda>(s, r'). (c # s, r')) (lex_string cs))"
  by pat_completeness auto
termination
  by (relation "measure length") (auto dest: read_escape_shorter)

declare lex_string.simps(2) [simp del]

text \<open>
  A number: an optional minus sign, digits without a leading zero, then optionally a
  fraction and an exponent. A number without fraction and exponent is the integer it
  denotes; any other is kept as its text.
\<close>

definition digits_value :: "jstring \<Rightarrow> nat" where
  "digits_value ds = foldl (\<lambda>n c. 10 * n + (c - 48)) 0 ds"

definition read_fraction :: "jstring \<Rightarrow> (bool \<times> jstring) option" where
  "read_fraction cs =
     (case cs of
        [] \<Rightarrow> Some (False, cs)
      | c # r \<Rightarrow>
          if c = 0x2E then
            (if takeWhile is_digit r = [] then None else Some (True, dropWhile is_digit r))
          else Some (False, cs))"

definition skip_sign :: "jstring \<Rightarrow> jstring" where
  "skip_sign cs = (case cs of [] \<Rightarrow> cs | c # r \<Rightarrow> if c = 0x2B \<or> c = 0x2D then r else cs)"

definition read_exponent :: "jstring \<Rightarrow> (bool \<times> jstring) option" where
  "read_exponent cs =
     (case cs of
        [] \<Rightarrow> Some (False, cs)
      | c # r \<Rightarrow>
          if c = 0x65 \<or> c = 0x45 then
            (if takeWhile is_digit (skip_sign r) = [] then None
             else Some (True, dropWhile is_digit (skip_sign r)))
          else Some (False, cs))"

definition lex_number :: "jstring \<Rightarrow> (token \<times> jstring) option" where
  "lex_number cs =
     (let neg = (case cs of [] \<Rightarrow> False | c # r \<Rightarrow> c = 0x2D);
          cs1 = (if neg then tl cs else cs);
          ds = takeWhile is_digit cs1;
          cs2 = dropWhile is_digit cs1
      in if ds = [] \<or> (hd ds = 0x30 \<and> 1 < length ds) then None
         else case read_fraction cs2 of
                None \<Rightarrow> None
              | Some (frac, cs3) \<Rightarrow>
                  (case read_exponent cs3 of
                     None \<Rightarrow> None
                   | Some (ex, cs4) \<Rightarrow>
                       if frac \<or> ex then Some (TDecimal (take (length cs - length cs4) cs), cs4)
                       else Some (TNumber (if neg then - int (digits_value ds)
                                           else int (digits_value ds)), cs4)))"

lemma read_fraction_shorter: "read_fraction cs = Some (b, r) \<Longrightarrow> length r \<le> length cs"
  by (auto simp: read_fraction_def split: list.splits if_splits
      intro: le_trans[OF length_dropWhile_le])

lemma skip_sign_shorter: "length (skip_sign cs) \<le> length cs"
  by (simp add: skip_sign_def split: list.splits)

lemma read_exponent_shorter: "read_exponent cs = Some (b, r) \<Longrightarrow> length r \<le> length cs"
  using le_trans[OF length_dropWhile_le skip_sign_shorter]
  by (auto simp: read_exponent_def le_Suc_eq split: list.splits if_splits)

lemma dropWhile_shorter: "takeWhile P xs \<noteq> [] \<Longrightarrow> length (dropWhile P xs) < length xs"
  by (induction xs) (auto simp: le_imp_less_Suc length_dropWhile_le split: if_splits)

lemma lex_number_shorter:
  assumes "lex_number cs = Some (t, r)"
  shows "length r < length cs"
proof -
  define cs1 where "cs1 = (if (case cs of [] \<Rightarrow> False | c # r \<Rightarrow> c = 0x2D) then tl cs else cs)"
  have l1: "length cs1 \<le> length cs" by (simp add: cs1_def)
  from assms have ne: "takeWhile is_digit cs1 \<noteq> []"
    by (auto simp: lex_number_def Let_def cs1_def split: if_splits)
  from assms obtain f cs3 e where
    f: "read_fraction (dropWhile is_digit cs1) = Some (f, cs3)" and e: "read_exponent cs3 = Some (e, r)"
    by (auto simp: lex_number_def Let_def cs1_def split: if_splits option.splits)
  from dropWhile_shorter[OF ne] read_fraction_shorter[OF f] read_exponent_shorter[OF e] l1
  show ?thesis by linarith
qed

text \<open>The tokens of a text; the recursion goes on with the text after the token read.\<close>

definition starts_with :: "jstring \<Rightarrow> jstring \<Rightarrow> bool" where
  "starts_with p cs = (take (length p) cs = p)"

lemma lex_string_shorter: "lex_string cs = Some (s, r) \<Longrightarrow> length r < length cs"
proof (induction cs arbitrary: s r rule: lex_string.induct)
  case 1
  then show ?case by simp
next
  case (2 c cs)
  show ?case
  proof (cases "c = 0x22")
    case True
    with "2.prems" show ?thesis by (simp add: lex_string.simps(2))
  next
    case nq: False
    show ?thesis
    proof (cases "c = 0x5C")
      case True
      with nq "2.prems" obtain u r0 s0 where e: "read_escape cs = Some (u, r0)"
        and l: "lex_string r0 = Some (s0, r)"
        by (auto simp: lex_string.simps(2) split: option.splits)
      from "2.IH"(1)[OF nq True e refl l] read_escape_shorter[OF e]
      show ?thesis by simp
    next
      case False
      with nq "2.prems" obtain s0 where l: "lex_string cs = Some (s0, r)" and "\<not> c < 0x20"
        by (auto simp: lex_string.simps(2) split: if_splits)
      with "2.IH"(2)[OF nq False _ l] show ?thesis by simp
    qed
  qed
qed

function tokenize :: "jstring \<Rightarrow> token list option" where
  "tokenize [] = Some []"
| "tokenize (c # cs) =
     (if is_ws c then tokenize cs
      else if c = 0x5B then map_option (Cons TLBracket) (tokenize cs)
      else if c = 0x5D then map_option (Cons TRBracket) (tokenize cs)
      else if c = 0x7B then map_option (Cons TLBrace) (tokenize cs)
      else if c = 0x7D then map_option (Cons TRBrace) (tokenize cs)
      else if c = 0x2C then map_option (Cons TComma) (tokenize cs)
      else if c = 0x3A then map_option (Cons TColon) (tokenize cs)
      else if c = 0x22 then
        (case lex_string cs of
           None \<Rightarrow> None
         | Some (s, r) \<Rightarrow> map_option (Cons (TString s)) (tokenize r))
      else if c = 0x2D \<or> is_digit c then
        (case lex_number (c # cs) of
           None \<Rightarrow> None
         | Some (t, r) \<Rightarrow> map_option (Cons t) (tokenize r))
      else if starts_with (js ''true'') (c # cs) then map_option (Cons TTrue) (tokenize (drop 3 cs))
      else if starts_with (js ''false'') (c # cs) then map_option (Cons TFalse) (tokenize (drop 4 cs))
      else if starts_with (js ''null'') (c # cs) then map_option (Cons TNull) (tokenize (drop 3 cs))
      else None)"
  by pat_completeness auto
termination
  by (relation "measure length")
     (auto dest: lex_string_shorter lex_number_shorter simp: less_Suc_eq_le)

declare tokenize.simps(2) [simp del]

text \<open>
  The second pass. A \<open>frame\<close> is an array or an object that is still open: the
  elements read so far, or the properties read so far and the key whose value is being
  read. The \<open>mode\<close> says what may come next.
\<close>

datatype frame = FArr "json list" | FObj "(jstring \<times> json) list" jstring

datatype mode =
    MValue | MFirstElem | MFirstKey
  | MKey "(jstring \<times> json) list" | MColon "(jstring \<times> json) list" jstring
  | MAfter json

text \<open>Defining a property: a key that is there already keeps its place and gets the new
  value.\<close>

fun put :: "jstring \<Rightarrow> json \<Rightarrow> (jstring \<times> json) list \<Rightarrow> (jstring \<times> json) list" where
  "put k v [] = [(k, v)]"
| "put k v (p # ps) = (if fst p = k then (k, v) # ps else p # put k v ps)"

fun value_start :: "token \<Rightarrow> frame list \<Rightarrow> (mode \<times> frame list) option" where
  "value_start TLBracket stk = Some (MFirstElem, FArr [] # stk)"
| "value_start TLBrace stk = Some (MFirstKey, stk)"
| "value_start (TString s) stk = Some (MAfter (JStr s), stk)"
| "value_start (TNumber n) stk = Some (MAfter (JNum n), stk)"
| "value_start (TDecimal t) stk = Some (MAfter (JDec t), stk)"
| "value_start TTrue stk = Some (MAfter (JBool True), stk)"
| "value_start TFalse stk = Some (MAfter (JBool False), stk)"
| "value_start TNull stk = Some (MAfter JNull, stk)"
| "value_start t stk = None"

fun step :: "mode \<Rightarrow> frame list \<Rightarrow> token \<Rightarrow> (mode \<times> frame list) option" where
  "step MValue stk t = value_start t stk"
| "step MFirstElem stk t =
     (if t = TRBracket then
        (case stk of FArr acc # stk' \<Rightarrow> Some (MAfter (JArr acc), stk') | _ \<Rightarrow> None)
      else value_start t stk)"
| "step MFirstKey stk t =
     (case t of
        TRBrace \<Rightarrow> Some (MAfter (JObj []), stk)
      | TString k \<Rightarrow> Some (MColon [] k, stk)
      | _ \<Rightarrow> None)"
| "step (MKey m) stk t = (case t of TString k \<Rightarrow> Some (MColon m k, stk) | _ \<Rightarrow> None)"
| "step (MColon m k) stk t = (case t of TColon \<Rightarrow> Some (MValue, FObj m k # stk) | _ \<Rightarrow> None)"
| "step (MAfter v) stk t =
     (case stk of
        [] \<Rightarrow> None
      | FArr acc # stk' \<Rightarrow>
          (case t of
             TComma \<Rightarrow> Some (MValue, FArr (acc @ [v]) # stk')
           | TRBracket \<Rightarrow> Some (MAfter (JArr (acc @ [v])), stk')
           | _ \<Rightarrow> None)
      | FObj m k # stk' \<Rightarrow>
          (case t of
             TComma \<Rightarrow> Some (MKey (put k v m), stk')
           | TRBrace \<Rightarrow> Some (MAfter (JObj (put k v m)), stk')
           | _ \<Rightarrow> None))"

fun run :: "mode \<Rightarrow> frame list \<Rightarrow> token list \<Rightarrow> json option" where
  "run m stk [] = (case m of MAfter v \<Rightarrow> (if stk = [] then Some v else None) | _ \<Rightarrow> None)"
| "run m stk (t # ts) =
     (case step m stk t of None \<Rightarrow> None | Some (m', stk') \<Rightarrow> run m' stk' ts)"

text \<open>\<open>JSON.parse(text)\<close>: the value, or the \<open>SyntaxError\<close> it throws.\<close>

definition JSON_parse :: "jstring \<Rightarrow> js_error + json" where
  "JSON_parse text =
     (case tokenize text of
        None \<Rightarrow> Inl SyntaxError
      | Some ts \<Rightarrow> (case run MValue [] ts of None \<Rightarrow> Inl SyntaxError | Some v \<Rightarrow> Inr v))"

subsection \<open>What \<open>JSON.parse\<close> reads back from \<open>JSON.stringify\<close>\<close>

lemma hexval_hexdigit: "n < 16 \<Longrightarrow> hexval (hexdigit n) = Some n"
  by (auto simp: hexval_def hexdigit_def)

lemma hex4_digits:
  assumes "c < 65536"
  shows "hex4 (hexdigit (c div 4096 mod 16)) (hexdigit (c div 256 mod 16))
           (hexdigit (c div 16 mod 16)) (hexdigit (c mod 16)) = Some c"
proof -
  have a: "c mod 256 = 16 * (c div 16 mod 16) + c mod 16"
    using mod_mult2_eq[of c 16 16] by simp
  have b: "c mod 4096 = 256 * (c div 256 mod 16) + c mod 256"
    using mod_mult2_eq[of c 256 16] by simp
  have d: "c mod 65536 = 4096 * (c div 4096 mod 16) + c mod 4096"
    using mod_mult2_eq[of c 4096 16] by simp
  from assms have "c mod 65536 = c" by simp
  with a b d have e: "4096 * (c div 4096 mod 16) + 256 * (c div 256 mod 16)
      + 16 * (c div 16 mod 16) + c mod 16 = c"
    by linarith
  have h: "hex4 (hexdigit (c div 4096 mod 16)) (hexdigit (c div 256 mod 16))
           (hexdigit (c div 16 mod 16)) (hexdigit (c mod 16))
        = Some (4096 * (c div 4096 mod 16) + 256 * (c div 256 mod 16)
                + 16 * (c div 16 mod 16) + c mod 16)"
    by (simp add: hex4_def hexval_hexdigit)
  show ?thesis by (simp only: h e)
qed

lemma read_escape_unicode:
  assumes "c < 65536"
  shows "read_escape (tl (unicode_escape c) @ cs) = Some (c, cs)"
  unfolding unicode_escape_def read_escape_def
  by (simp only: list.sel append_Cons append_Nil list.case if_True hex4_digits[OF assms]
      option.map refl)

lemma lex_string_unicode_escape:
  assumes "c < 65536"
  shows "lex_string (unicode_escape c @ cs) = map_option (\<lambda>(s, r). (c # s, r)) (lex_string cs)"
proof -
  have u: "unicode_escape c @ cs = 0x5C # tl (unicode_escape c) @ cs"
    by (simp add: unicode_escape_def)
  show ?thesis
    unfolding u by (simp add: lex_string.simps(2) read_escape_unicode[OF assms])
qed

lemma lex_string_raw:
  "c \<noteq> 0x22 \<Longrightarrow> c \<noteq> 0x5C \<Longrightarrow> \<not> c < 0x20 \<Longrightarrow>
   lex_string (c # cs) = map_option (\<lambda>(s, r). (c # s, r)) (lex_string cs)"
  by (simp add: lex_string.simps(2))

lemma lex_string_escape_unit:
  "\<not> is_lead c \<Longrightarrow> \<not> is_trail c \<Longrightarrow>
   lex_string (escape_unit c @ cs) = map_option (\<lambda>(s, r). (c # s, r)) (lex_string cs)"
  by (auto simp: escape_unit_def lex_string_unicode_escape lex_string.simps(2) read_escape_def
      unescape_def)

lemma lex_string_surrogate:
  "is_lead c \<or> is_trail c \<Longrightarrow>
   lex_string (unicode_escape c @ cs) = map_option (\<lambda>(s, r). (c # s, r)) (lex_string cs)"
  by (rule lex_string_unicode_escape) (auto simp: is_lead_def is_trail_def)

lemma lex_string_quote_units: "lex_string (quote_units s @ 0x22 # rest) = Some (s, rest)"
proof (induction s rule: quote_units.induct)
  case 1
  show ?case by (simp add: lex_string.simps(2))
next
  case (2 c)
  show ?case
    by (simp add: lex_string_surrogate lex_string_escape_unit) (simp add: lex_string.simps(2))
next
  case (3 c d cs)
  show ?case
  proof (cases "is_lead c \<and> is_trail d")
    case True
    then have c: "c \<noteq> 0x22" "c \<noteq> 0x5C" "\<not> c < 0x20" and d: "d \<noteq> 0x22" "d \<noteq> 0x5C" "\<not> d < 0x20"
      by (auto simp: is_lead_def is_trail_def)
    from True "3.IH"(1) show ?thesis
      by (simp add: lex_string_raw[OF c] lex_string_raw[OF d])
  next
    case False
    then have q: "quote_units (c # d # cs)
        = (if is_lead c \<or> is_trail c then unicode_escape c else escape_unit c) @ quote_units (d # cs)"
      by auto
    show ?thesis
    proof (cases "is_lead c \<or> is_trail c")
      case True
      with False "3.IH"(2) show ?thesis
        unfolding q by (simp add: lex_string_surrogate)
    next
      case no: False
      with False "3.IH"(3) show ?thesis
        unfolding q by (simp add: lex_string_escape_unit)
    qed
  qed
qed

subsection \<open>Numbers\<close>

lemma digits_is_digit: "c \<in> set (digits n) \<Longrightarrow> is_digit c"
proof (induction n rule: digits.induct)
  case (1 n)
  then show ?case
    by (subst (asm) digits.simps) (auto simp: is_digit_def split: if_splits)
qed

lemma digits_nonempty: "digits n \<noteq> []"
  by (subst digits.simps) simp

lemma digits_value_snoc: "digits_value (ds @ [c]) = 10 * digits_value ds + (c - 48)"
  by (simp add: digits_value_def)

lemma digits_value_digits: "digits_value (digits n) = n"
proof (induction n rule: digits.induct)
  case (1 n)
  show ?case
  proof (cases "n < 10")
    case True
    then show ?thesis by (subst digits.simps) (simp add: digits_value_def)
  next
    case False
    with 1 show ?thesis by (subst digits.simps) (simp add: digits_value_snoc)
  qed
qed

lemma hd_digits: "0 < n \<Longrightarrow> hd (digits n) \<noteq> 48"
proof (induction n rule: digits.induct)
  case (1 n)
  show ?case
  proof (cases "n < 10")
    case True
    with "1.prems" show ?thesis by (subst digits.simps) simp
  next
    case False
    then have "0 < n div 10" by simp
    with 1 False show ?thesis by (subst digits.simps) (simp add: digits_nonempty)
  qed
qed

lemma digits_no_leading_zero: "\<not> (hd (digits n) = 48 \<and> 1 < length (digits n))"
proof (cases "n = 0")
  case True
  then show ?thesis by (subst (2) digits.simps) simp
next
  case False
  then show ?thesis using hd_digits[of n] by simp
qed

text \<open>In the output of \<open>JSON.stringify\<close> a number stands at the end or before a comma or
  a closing bracket or brace.\<close>

definition delimited :: "jstring \<Rightarrow> bool" where
  "delimited rest = (case rest of [] \<Rightarrow> True | c # r \<Rightarrow> c = 0x2C \<or> c = 0x5D \<or> c = 0x7D)"

lemma takeWhile_digits:
  assumes "delimited rest"
  shows "takeWhile is_digit (digits n @ rest) = digits n"
    and "dropWhile is_digit (digits n @ rest) = rest"
proof -
  from assms have "rest = [] \<or> \<not> is_digit (hd rest)"
    by (auto simp: delimited_def is_digit_def split: list.splits)
  then show "takeWhile is_digit (digits n @ rest) = digits n"
    and "dropWhile is_digit (digits n @ rest) = rest"
    by (cases rest; simp add: takeWhile_append2 dropWhile_append2 digits_is_digit
        takeWhile_eq_all_conv)+
qed

lemma read_fraction_delimited: "delimited rest \<Longrightarrow> read_fraction rest = Some (False, rest)"
  by (auto simp: delimited_def read_fraction_def split: list.splits)

lemma read_exponent_delimited: "delimited rest \<Longrightarrow> read_exponent rest = Some (False, rest)"
  by (auto simp: delimited_def read_exponent_def split: list.splits)

lemma digits_first: "\<exists>c cs. digits n = c # cs \<and> is_digit c"
  using digits_nonempty[of n] digits_is_digit[of _ n] by (cases "digits n") auto

lemma lex_number_digits:
  assumes "delimited rest"
  shows "lex_number (digits n @ rest) = Some (TNumber (int n), rest)"
proof -
  obtain c cs where d: "digits n = c # cs" and c: "is_digit c"
    using digits_first by blast
  then have neg: "(case digits n @ rest of [] \<Rightarrow> False | c # r \<Rightarrow> c = 0x2D) = False"
    by (auto simp: is_digit_def)
  show ?thesis
    unfolding lex_number_def Let_def neg
    using digits_no_leading_zero[of n]
    by (simp add: takeWhile_digits[OF assms] digits_nonempty read_fraction_delimited[OF assms]
        read_exponent_delimited[OF assms] digits_value_digits)
qed

lemma lex_number_minus_digits:
  assumes "delimited rest"
  shows "lex_number (0x2D # digits n @ rest) = Some (TNumber (- int n), rest)"
  unfolding lex_number_def Let_def
  using digits_no_leading_zero[of n]
  by (simp add: takeWhile_digits[OF assms] digits_nonempty read_fraction_delimited[OF assms]
      read_exponent_delimited[OF assms] digits_value_digits)

lemma lex_number_show_int:
  assumes "delimited rest"
  shows "lex_number (show_int n @ rest) = Some (TNumber n, rest)"
  by (cases "n < 0")
     (simp_all add: show_int_def lex_number_digits[OF assms] lex_number_minus_digits[OF assms])

text \<open>The tokens of the text that \<open>JSON.stringify\<close> writes for a value.\<close>

fun toks :: "json \<Rightarrow> token list" where
  "toks JNull = [TNull]"
| "toks (JBool b) = [if b then TTrue else TFalse]"
| "toks (JNum n) = [TNumber n]"
| "toks (JDec t) = [TDecimal t]"
| "toks (JStr s) = [TString s]"
| "toks (JArr xs) = TLBracket # join_with TComma (map toks xs) @ [TRBracket]"
| "toks (JObj kvs) =
     TLBrace # join_with TComma (map (\<lambda>kv. TString (fst kv) # TColon # toks (snd kv)) kvs) @ [TRBrace]"

text \<open>
  The values that are taken through the store: integers, strings, booleans and
  \<open>null\<close>, arrays of such values, and objects of such values with no key twice.
\<close>

fun wf_json :: "json \<Rightarrow> bool" where
  "wf_json (JDec t) = False"
| "wf_json (JArr xs) = list_all wf_json xs"
| "wf_json (JObj kvs) = (distinct (map fst kvs) \<and> list_all (\<lambda>kv. wf_json (snd kv)) kvs)"
| "wf_json v = True"

lemma tokenize_punct:
  "tokenize (0x5B # cs) = map_option (Cons TLBracket) (tokenize cs)"
  "tokenize (0x5D # cs) = map_option (Cons TRBracket) (tokenize cs)"
  "tokenize (0x7B # cs) = map_option (Cons TLBrace) (tokenize cs)"
  "tokenize (0x7D # cs) = map_option (Cons TRBrace) (tokenize cs)"
  "tokenize (0x2C # cs) = map_option (Cons TComma) (tokenize cs)"
  "tokenize (0x3A # cs) = map_option (Cons TColon) (tokenize cs)"
  by (simp_all add: tokenize.simps(2) is_ws_def)

lemma tokenize_quote: "tokenize (quote s @ rest) = map_option (Cons (TString s)) (tokenize rest)"
  by (simp add: quote_def tokenize.simps(2) is_ws_def lex_string_quote_units)

lemma tokenize_words:
  "tokenize (js ''null'' @ rest) = map_option (Cons TNull) (tokenize rest)"
  "tokenize (js ''true'' @ rest) = map_option (Cons TTrue) (tokenize rest)"
  "tokenize (js ''false'' @ rest) = map_option (Cons TFalse) (tokenize rest)"
  by (simp_all add: tokenize.simps(2) is_ws_def is_digit_def starts_with_def)

lemmas tokenize_literals = tokenize_words [simplified]

lemma show_int_first: "\<exists>c cs. show_int n = c # cs \<and> (c = 0x2D \<or> is_digit c)"
  using digits_first[of "nat n"] by (auto simp: show_int_def)

lemma not_ws_digit: "c = 0x2D \<or> is_digit c \<Longrightarrow>
  \<not> is_ws c \<and> c \<noteq> 0x5B \<and> c \<noteq> 0x5D \<and> c \<noteq> 0x7B \<and> c \<noteq> 0x7D \<and> c \<noteq> 0x2C \<and> c \<noteq> 0x3A \<and> c \<noteq> 0x22"
  by (auto simp: is_ws_def is_digit_def)

lemma tokenize_show_int:
  assumes "delimited rest"
  shows "tokenize (show_int n @ rest) = map_option (Cons (TNumber n)) (tokenize rest)"
proof -
  obtain c cs where s: "show_int n = c # cs" and c: "c = 0x2D \<or> is_digit c"
    using show_int_first by blast
  from lex_number_show_int[OF assms, of n] s
  have n: "lex_number (c # cs @ rest) = Some (TNumber n, rest)" by simp
  from not_ws_digit[OF c] c n show ?thesis
    unfolding s by (simp add: tokenize.simps(2))
qed

lemma map_option_append:
  "map_option ((@) xs) (map_option ((@) ys) v) = map_option ((@) (xs @ ys)) v"
  "map_option (Cons x) (map_option ((@) ys) v) = map_option ((@) (x # ys)) v"
  "map_option ((@) xs) (map_option (Cons y) v) = map_option ((@) (xs @ [y])) v"
  by (cases v; simp)+

lemma delimited_simps:
  "delimited []" "delimited (0x2C # cs)" "delimited (0x5D # cs)" "delimited (0x7D # cs)"
  by (simp_all add: delimited_def)

lemma tokenize_join:
  assumes "\<And>x rest. x \<in> set xs \<Longrightarrow> delimited rest \<Longrightarrow>
             tokenize (f x @ rest) = map_option ((@) (g x)) (tokenize rest)"
    and "delimited rest"
  shows "tokenize (join_with 0x2C (map f xs) @ rest) = map_option ((@) (join_with TComma (map g xs))) (tokenize rest)"
  using assms
proof (induction xs rule: induct_list012)
  case 1
  then show ?case by (cases "tokenize rest") simp_all
next
  case (2 x)
  then show ?case by simp
next
  case (3 x y zs)
  have "tokenize (join_with 0x2C (map f (y # zs)) @ rest)
      = map_option ((@) (join_with TComma (map g (y # zs)))) (tokenize rest)"
    using "3.prems" by (intro "3.IH"(2)) auto
  then show ?case
    using "3.prems"(1)[of x "0x2C # join_with 0x2C (map f (y # zs)) @ rest"]
    by (simp add: delimited_simps tokenize_punct map_option_append) (cases "tokenize rest"; simp)
qed

lemma tokenize_stringify:
  assumes "wf_json v" and "delimited rest"
  shows "tokenize (JSON_stringify v @ rest) = map_option ((@) (toks v)) (tokenize rest)"
  using assms
proof (induction v arbitrary: rest rule: toks.induct)
  case 1
  then show ?case by (simp add: tokenize_literals; cases "tokenize rest"; simp)
next
  case (2 b)
  then show ?case by (cases b; simp add: tokenize_literals; cases "tokenize rest"; simp)
next
  case (3 n)
  then show ?case by (simp add: tokenize_show_int; cases "tokenize rest"; simp)
next
  case (4 t)
  then show ?case by simp
next
  case (5 s)
  then show ?case by (simp add: tokenize_quote; cases "tokenize rest"; simp)
next
  case (6 xs)
  have "tokenize (join_with 0x2C (map JSON_stringify xs) @ 0x5D # rest)
      = map_option ((@) (join_with TComma (map toks xs))) (tokenize (0x5D # rest))"
    using "6.IH" "6.prems"(1)
    by (intro tokenize_join) (auto simp: list_all_iff delimited_simps)
  then show ?case
    by (simp add: tokenize_punct map_option_append) (cases "tokenize rest"; simp)
next
  case (7 kvs)
  have "tokenize (join_with 0x2C (map (\<lambda>kv. quote (fst kv) @ 0x3A # JSON_stringify (snd kv)) kvs) @ 0x7D # rest)
      = map_option ((@) (join_with TComma (map (\<lambda>kv. TString (fst kv) # TColon # toks (snd kv)) kvs)))
          (tokenize (0x7D # rest))"
  proof (intro tokenize_join)
    fix kv r assume "kv \<in> set kvs" and d: "delimited r"
    with "7.IH"[of kv r] "7.prems"(1)
    have "tokenize (JSON_stringify (snd kv) @ r) = map_option ((@) (toks (snd kv))) (tokenize r)"
      by (auto simp: list_all_iff)
    then show "tokenize ((quote (fst kv) @ 0x3A # JSON_stringify (snd kv)) @ r)
        = map_option ((@) (TString (fst kv) # TColon # toks (snd kv))) (tokenize r)"
      by (simp add: tokenize_quote tokenize_punct map_option_append)
  qed (simp add: delimited_simps)
  then show ?case
    by (simp add: tokenize_punct map_option_append) (cases "tokenize rest"; simp)
qed

lemma put_fresh: "k \<notin> fst ` set m \<Longrightarrow> put k v m = m @ [(k, v)]"
  by (induction m) auto

lemma toks_first: "\<exists>t ts. toks v = t # ts \<and> t \<noteq> TRBracket \<and> step MFirstElem stk t = value_start t stk"
  by (cases v) auto

lemma run_first_elem:
  "run MFirstElem stk (toks v @ ts) = run MValue stk (toks v @ ts)"
proof -
  obtain t ts' where "toks v = t # ts'" and "step MFirstElem stk t = value_start t stk"
    using toks_first by blast
  then show ?thesis by simp
qed

lemma run_elements:
  assumes "\<And>x stk ts. x \<in> set xs \<Longrightarrow> run MValue stk (toks x @ ts) = run (MAfter x) stk ts"
    and "xs \<noteq> []"
  shows "run MValue (FArr acc # stk) (join_with TComma (map toks xs) @ TRBracket # ts)
           = run (MAfter (JArr (acc @ xs))) stk ts"
  using assms
proof (induction xs arbitrary: acc rule: induct_list012)
  case 1
  then show ?case by simp
next
  case (2 x)
  then show ?case by simp
next
  case (3 x y zs)
  have "run MValue (FArr (acc @ [x]) # stk) (join_with TComma (map toks (y # zs)) @ TRBracket # ts)
      = run (MAfter (JArr ((acc @ [x]) @ y # zs))) stk ts"
    using "3.prems"(1) by (intro "3.IH"(2)) auto
  with "3.prems"(1)[of x] show ?case by simp
qed

lemma run_members:
  assumes "\<And>kv stk ts. kv \<in> set kvs \<Longrightarrow>
             run MValue stk (toks (snd kv) @ ts) = run (MAfter (snd kv)) stk ts"
    and "kvs \<noteq> []" and "distinct (map fst (m @ kvs))"
  shows "run (MKey m) stk
           (join_with TComma (map (\<lambda>kv. TString (fst kv) # TColon # toks (snd kv)) kvs) @ TRBrace # ts)
           = run (MAfter (JObj (m @ kvs))) stk ts"
  using assms
proof (induction kvs arbitrary: m rule: induct_list012)
  case 1
  then show ?case by simp
next
  case (2 kv)
  from "2.prems"(3) have "fst kv \<notin> fst ` set m" by auto
  then have "put (fst kv) (snd kv) m = m @ [kv]" by (simp add: put_fresh)
  with "2.prems"(1)[of kv] show ?case by simp
next
  case (3 kv y zs)
  from "3.prems"(3) have "fst kv \<notin> fst ` set m" by auto
  then have p: "put (fst kv) (snd kv) m = m @ [kv]" by (simp add: put_fresh)
  have "run (MKey (m @ [kv])) stk
          (join_with TComma (map (\<lambda>kv. TString (fst kv) # TColon # toks (snd kv)) (y # zs)) @ TRBrace # ts)
      = run (MAfter (JObj ((m @ [kv]) @ y # zs))) stk ts"
    using "3.prems"(1,3) by (intro "3.IH"(2)) auto
  with "3.prems"(1)[of kv] p show ?case by simp
qed

lemma run_toks:
  assumes "wf_json v"
  shows "run MValue stk (toks v @ ts) = run (MAfter v) stk ts"
  using assms
proof (induction v arbitrary: stk ts rule: toks.induct)
  case (6 xs)
  show ?case
  proof (cases "xs = []")
    case True
    then show ?thesis by simp
  next
    case False
    have e: "run MValue (FArr [] # stk) (join_with TComma (map toks xs) @ TRBracket # ts)
        = run (MAfter (JArr ([] @ xs))) stk ts"
      using "6.IH" "6.prems" False by (intro run_elements) (auto simp: list_all_iff)
    from False obtain x xs' where xs: "xs = x # xs'" by (cases xs) auto
    have j: "\<exists>rest. join_with TComma (map toks xs) @ TRBracket # ts = toks x @ rest"
      unfolding xs by (cases xs') auto
    then obtain rest where r: "join_with TComma (map toks xs) @ TRBracket # ts = toks x @ rest" ..
    have "run MFirstElem (FArr [] # stk) (join_with TComma (map toks xs) @ TRBracket # ts)
        = run MValue (FArr [] # stk) (join_with TComma (map toks xs) @ TRBracket # ts)"
      unfolding r by (rule run_first_elem)
    with e show ?thesis by simp
  qed
next
  case (7 kvs)
  show ?case
  proof (cases "kvs = []")
    case True
    then show ?thesis by simp
  next
    case False
    have e: "run (MKey []) stk
          (join_with TComma (map (\<lambda>kv. TString (fst kv) # TColon # toks (snd kv)) kvs) @ TRBrace # ts)
        = run (MAfter (JObj ([] @ kvs))) stk ts"
      using "7.IH" "7.prems" False by (intro run_members) (auto simp: list_all_iff)
    from False obtain kv kvs' where kvs: "kvs = kv # kvs'" by (cases kvs) auto
    have "\<exists>rest. join_with TComma (map (\<lambda>kv. TString (fst kv) # TColon # toks (snd kv)) kvs) @ TRBrace # ts
        = TString (fst kv) # rest"
      unfolding kvs by (cases kvs') auto
    then obtain rest where
      r: "join_with TComma (map (\<lambda>kv. TString (fst kv) # TColon # toks (snd kv)) kvs) @ TRBrace # ts
        = TString (fst kv) # rest" ..
    have "run MFirstKey stk (TString (fst kv) # rest) = run (MKey []) stk (TString (fst kv) # rest)"
      by simp
    with e r show ?thesis by simp
  qed
qed simp_all

lemma JSON_parse_stringify:
  assumes "wf_json v"
  shows "JSON_parse (JSON_stringify v) = Inr v"
proof -
  have "tokenize (JSON_stringify v @ []) = map_option ((@) (toks v)) (tokenize [])"
    using assms by (intro tokenize_stringify) (simp_all add: delimited_simps)
  then have t: "tokenize (JSON_stringify v) = Some (toks v)" by simp
  have "run MValue [] (toks v @ []) = run (MAfter v) [] []"
    using assms by (rule run_toks)
  then have "run MValue [] (toks v) = Some v" by simp
  with t show ?thesis by (simp add: JSON_parse_def)
qed

section \<open>The records survive the store\<close>

text \<open>Every record of the application is a value that \<open>JSON.parse\<close> reads back from its
  serialization.\<close>

lemma Some_eq_map_option: "(Some v = map_option f x) = (\<exists>y. x = Some y \<and> v = f y)"
  by (cases x) auto

lemma wf_object:
  assumes "distinct (map fst props)"
    and "\<And>k v. (k, Some v) \<in> set props \<Longrightarrow> wf_json v"
  shows "wf_json (object props)"
proof -
  let ?m = "List.map_filter (\<lambda>kv. map_option (Pair (fst kv)) (snd kv)) props"
  have k: "map fst ?m = map fst (filter (\<lambda>kv. snd kv \<noteq> None) props)"
    by (induction props) (auto simp: List.map_filter_simps split: option.splits)
  from assms(1) have "distinct (map fst ?m)"
    unfolding k by (rule distinct_map_filter)
  moreover have "wf_json (snd kv)" if "kv \<in> set ?m" for kv
  proof -
    from that obtain p where p: "p \<in> set props"
      and e: "map_option (Pair (fst p)) (snd p) = Some kv"
      by (auto simp: List.map_filter_def)
    from e obtain z where "snd p = Some z" and "kv = (fst p, z)" by auto
    then have "p = (fst kv, Some (snd kv))" by (simp add: prod_eq_iff)
    with p have "(fst kv, Some (snd kv)) \<in> set props" by simp
    then show ?thesis by (rule assms(2))
  qed
  ultimately show ?thesis
    by (simp add: object_def list_all_iff)
qed

lemma wf_strings_json: "wf_json (strings_json xs)"
  by (simp add: strings_json_def list_all_iff)

lemma wf_reminder_json: "wf_json (reminder_json r)"
  unfolding reminder_json_def
  by (rule wf_object) (auto simp: Some_eq_map_option)

lemma wf_reminders_json: "wf_json (reminders_json rs)"
  by (simp add: reminders_json_def list_all_iff wf_reminder_json)

lemma wf_purchaseLink_json: "wf_json (purchaseLink_json l)"
  unfolding purchaseLink_json_def
  by (rule wf_object) auto

lemma wf_cures_json: "wf_json (cures_json c)"
  unfolding cures_json_def
  by (rule wf_object) (auto simp: wf_strings_json)

lemma wf_soilData_json: "wf_json (soilData_json d)"
  unfolding soilData_json_def
  by (rule wf_object) (auto simp: wf_strings_json)

lemma wf_seedData_json: "wf_json (seedData_json d)"
  unfolding seedData_json_def
  by (rule wf_object) (auto simp: wf_strings_json)

lemma wf_historyItem_json: "wf_json (historyItem_json h)"
  unfolding historyItem_json_def
proof (rule wf_object)
  show "distinct (map fst
     [(js ''id'', Some (JStr (h_id h))),
      (js ''timestamp'', Some (JNum (h_timestamp h))),
      (js ''type'', Some (JStr (HistoryItemType_name (h_type h)))),
      (js ''plantName'', Some (JStr (h_plantName h))),
      (js ''diseaseName'', map_option JStr (h_diseaseName h)),
      (js ''severity'', map_option JStr (h_severity h)),
      (js ''symptoms'', map_option strings_json (h_symptoms h)),
      (js ''cures'', map_option cures_json (h_cures h)),
      (js ''prevention'', map_option strings_json (h_prevention h)),
      (js ''purchaseLinks'', map_option (\<lambda>ls. JArr (map purchaseLink_json ls)) (h_purchaseLinks h)),
      (js ''imageUrl'', map_option JStr (h_imageUrl h)),
      (js ''guideContent'', map_option JStr (h_guideContent h)),
      (js ''soilData'', map_option soilData_json (h_soilData h)),
      (js ''seedData'', map_option seedData_json (h_seedData h))])"
    by simp
next
  fix k v
  assume "(k, Some v) \<in> set
     [(js ''id'', Some (JStr (h_id h))),
      (js ''timestamp'', Some (JNum (h_timestamp h))),
      (js ''type'', Some (JStr (HistoryItemType_name (h_type h)))),
      (js ''plantName'', Some (JStr (h_plantName h))),
      (js ''diseaseName'', map_option JStr (h_diseaseName h)),
      (js ''severity'', map_option JStr (h_severity h)),
      (js ''symptoms'', map_option strings_json (h_symptoms h)),
      (js ''cures'', map_option cures_json (h_cures h)),
      (js ''prevention'', map_option strings_json (h_prevention h)),
      (js ''purchaseLinks'', map_option (\<lambda>ls. JArr (map purchaseLink_json ls)) (h_purchaseLinks h)),
      (js ''imageUrl'', map_option JStr (h_imageUrl h)),
      (js ''guideContent'', map_option JStr (h_guideContent h)),
      (js ''soilData'', map_option soilData_json (h_soilData h)),
      (js ''seedData'', map_option seedData_json (h_seedData h))]"
  then show "wf_json v"
    by (auto simp: wf_strings_json wf_cures_json wf_soilData_json wf_seedData_json
        wf_purchaseLink_json list_all_iff Some_eq_map_option)
qed

lemma wf_history_json: "wf_json (history_json hs)"
  by (simp add: history_json_def list_all_iff wf_historyItem_json)

text \<open>
  Different records are different values: \<open>property k v\<close> is the property \<open>v[k]\<close> of
  an object, and a record can be read off the properties of its value.
\<close>

definition property :: "jstring \<Rightarrow> json \<Rightarrow> json option" where
  "property k v = (case v of JObj kvs \<Rightarrow> map_of kvs k | _ \<Rightarrow> None)"

lemma property_object_absent:
  "k \<notin> fst ` set props \<Longrightarrow> property k (object props) = None"
  by (induction props)
     (auto simp: property_def object_def List.map_filter_simps split: option.splits)

lemma property_object:
  assumes "distinct (map fst props)"
  shows "property k (object props) = (case map_of props k of Some (Some v) \<Rightarrow> Some v | _ \<Rightarrow> None)"
  using assms
proof (induction props)
  case Nil
  then show ?case by (simp add: property_def object_def List.map_filter_simps)
next
  case (Cons p ps)
  then have ih: "property k (object ps) = (case map_of ps k of Some (Some v) \<Rightarrow> Some v | _ \<Rightarrow> None)"
    and fresh: "fst p \<notin> fst ` set ps"
    by auto
  show ?case
  proof (cases "fst p = k")
    case True
    with fresh have "property k (object ps) = None" by (simp add: property_object_absent)
    with True show ?thesis
      by (cases p) (auto simp: property_def object_def List.map_filter_simps split: option.splits)
  next
    case False
    with ih show ?thesis
      by (cases p) (auto simp: property_def object_def List.map_filter_simps split: option.splits)
  qed
qed

lemma map_option_inj: "inj f \<Longrightarrow> map_option f a = map_option f b \<Longrightarrow> a = b"
  by (cases a; cases b) (auto dest: injD)

lemma inj_JStr: "inj JStr"
  by (simp add: inj_def)

lemma inj_strings_json: "inj strings_json"
  by (auto simp: inj_def strings_json_def dest: map_injective[OF _ inj_JStr])

lemma inj_ReminderType_name: "inj ReminderType_name"
proof (rule injI)
  fix a b assume "ReminderType_name a = ReminderType_name b"
  then show "a = b" by (cases a; cases b) simp_all
qed

lemma inj_HistoryItemType_name: "inj HistoryItemType_name"
proof (rule injI)
  fix a b assume "HistoryItemType_name a = HistoryItemType_name b"
  then show "a = b" by (cases a; cases b) simp_all
qed

lemma inj_purchaseLink_json: "inj purchaseLink_json"
  by (rule injI) (simp add: purchaseLink_json_def object_def List.map_filter_simps)

lemma inj_cures_json: "inj cures_json"
  by (rule injI)
     (simp add: cures_json_def object_def List.map_filter_simps inj_eq[OF inj_strings_json])

lemma inj_soilData_json: "inj soilData_json"
  by (rule injI)
     (simp add: soilData_json_def object_def List.map_filter_simps inj_eq[OF inj_strings_json])

lemma inj_seedData_json: "inj seedData_json"
  by (rule injI)
     (simp add: seedData_json_def object_def List.map_filter_simps inj_eq[OF inj_strings_json])

lemma inj_purchaseLinks: "inj (\<lambda>ls. JArr (map purchaseLink_json ls))"
  by (auto simp: inj_def dest: map_injective[OF _ inj_purchaseLink_json])

lemma reminder_properties:
  "property (js ''id'') (reminder_json r) = Some (JStr (r_id r))"
  "property (js ''title'') (reminder_json r) = Some (JStr (r_title r))"
  "property (js ''type'') (reminder_json r) = Some (JStr (ReminderType_name (r_type r)))"
  "property (js ''plantName'') (reminder_json r) = map_option JStr (r_plantName r)"
  "property (js ''date'') (reminder_json r) = Some (JStr (r_date r))"
  "property (js ''completed'') (reminder_json r) = Some (JBool (r_completed r))"
  unfolding reminder_json_def
  by (subst property_object; simp split: option.splits)+

lemma inj_reminder_json: "inj reminder_json"
proof (rule injI)
  fix r r' assume eq: "reminder_json r = reminder_json r'"
  have "r_id r = r_id r'" and "r_title r = r_title r'" and "r_type r = r_type r'"
    and "r_plantName r = r_plantName r'" and "r_date r = r_date r'"
    and "r_completed r = r_completed r'"
    using reminder_properties[of r, unfolded eq] reminder_properties[of r']
    by (auto dest: injD[OF inj_ReminderType_name] map_option_inj[OF inj_JStr])
  then show "r = r'" by simp
qed

lemma inj_reminders_json: "inj reminders_json"
  by (auto simp: inj_def reminders_json_def dest: map_injective[OF _ inj_reminder_json])

lemma historyItem_properties:
  "property (js ''id'') (historyItem_json h) = Some (JStr (h_id h))"
  "property (js ''timestamp'') (historyItem_json h) = Some (JNum (h_timestamp h))"
  "property (js ''type'') (historyItem_json h) = Some (JStr (HistoryItemType_name (h_type h)))"
  "property (js ''plantName'') (historyItem_json h) = Some (JStr (h_plantName h))"
  "property (js ''diseaseName'') (historyItem_json h) = map_option JStr (h_diseaseName h)"
  "property (js ''severity'') (historyItem_json h) = map_option JStr (h_severity h)"
  "property (js ''symptoms'') (historyItem_json h) = map_option strings_json (h_symptoms h)"
  "property (js ''cures'') (historyItem_json h) = map_option cures_json (h_cures h)"
  "property (js ''prevention'') (historyItem_json h) = map_option strings_json (h_prevention h)"
  "property (js ''purchaseLinks'') (historyItem_json h)
     = map_option (\<lambda>ls. JArr (map purchaseLink_json ls)) (h_purchaseLinks h)"
  "property (js ''imageUrl'') (historyItem_json h) = map_option JStr (h_imageUrl h)"
  "property (js ''guideContent'') (historyItem_json h) = map_option JStr (h_guideContent h)"
  "property (js ''soilData'') (historyItem_json h) = map_option soilData_json (h_soilData h)"
  "property (js ''seedData'') (historyItem_json h) = map_option seedData_json (h_seedData h)"
  unfolding historyItem_json_def
  by (subst property_object; simp split: option.splits)+

lemma inj_historyItem_json: "inj historyItem_json"
proof (rule injI)
  fix h h' assume eq: "historyItem_json h = historyItem_json h'"
  note p = historyItem_properties[of h, unfolded eq] and p' = historyItem_properties[of h']
  have "h_id h = h_id h'" using p(1) p'(1) by simp
  moreover have "h_timestamp h = h_timestamp h'" using p(2) p'(2) by simp
  moreover have "h_type h = h_type h'"
    using p(3) p'(3) by (auto dest: injD[OF inj_HistoryItemType_name])
  moreover have "h_plantName h = h_plantName h'" using p(4) p'(4) by simp
  moreover have "h_diseaseName h = h_diseaseName h'"
    using p(5) p'(5) by (auto dest: map_option_inj[OF inj_JStr])
  moreover have "h_severity h = h_severity h'"
    using p(6) p'(6) by (auto dest: map_option_inj[OF inj_JStr])
  moreover have "h_symptoms h = h_symptoms h'"
    using p(7) p'(7) by (auto dest: map_option_inj[OF inj_strings_json])
  moreover have "h_cures h = h_cures h'"
    using p(8) p'(8) by (auto dest: map_option_inj[OF inj_cures_json])
  moreover have "h_prevention h = h_prevention h'"
    using p(9) p'(9) by (auto dest: map_option_inj[OF inj_strings_json])
  moreover have "h_purchaseLinks h = h_purchaseLinks h'"
    using p(10) p'(10) by (auto dest: map_option_inj[OF inj_purchaseLinks])
  moreover have "h_imageUrl h = h_imageUrl h'"
    using p(11) p'(11) by (auto dest: map_option_inj[OF inj_JStr])
  moreover have "h_guideContent h = h_guideContent h'"
    using p(12) p'(12) by (auto dest: map_option_inj[OF inj_JStr])
  moreover have "h_soilData h = h_soilData h'"
    using p(13) p'(13) by (auto dest: map_option_inj[OF inj_soilData_json])
  moreover have "h_seedData h = h_seedData h'"
    using p(14) p'(14) by (auto dest: map_option_inj[OF inj_seedData_json])
  ultimately show "h = h'" by simp
qed

lemma inj_history_json: "inj history_json"
  by (auto simp: inj_def history_json_def dest: map_injective[OF _ inj_historyItem_json])

section \<open>Loading the state (App.tsx, the first effect)\<close>

definition USER_KEY :: jstring where
  "USER_KEY = js ''flora_guard_user''"

text \<open>
  \<open>const saved = localStorage.getItem(key); if (saved) setState(JSON.parse(saved));\<close>
  The result is the state after the two lines: the parsed value, the state as it was
  (\<open>current\<close>) when the key is absent or holds the empty string, which is falsy, or the
  \<open>SyntaxError\<close> that \<open>JSON.parse\<close> throws; nothing in the effect catches it.
\<close>

definition load_saved :: "storage \<Rightarrow> jstring \<Rightarrow> json \<Rightarrow> js_error + json" where
  "load_saved st key current =
     (case getItem st key of
        None \<Rightarrow> Inr current
      | Some saved \<Rightarrow> if saved = [] then Inr current else JSON_parse saved)"

text \<open>The initial state of \<open>user\<close>.\<close>

definition initial_user :: json where
  "initial_user = object
     [(js ''name'', Some (JStr [])), (js ''email'', Some (JStr [])),
      (js ''photoUrl'', Some (JStr [])), (js ''isLoggedIn'', Some (JBool False))]"

text \<open>
  The effect loads the history, the user and the reminders in this order; an error
  thrown by one load ends the effect, so the loads after it do not run.
\<close>

record loaded =
  l_history :: json
  l_user :: json
  l_reminders :: json

definition load_state :: "storage \<Rightarrow> js_error + loaded" where
  "load_state st =
     (case load_saved st HISTORY_KEY (JArr []) of
        Inl e \<Rightarrow> Inl e
      | Inr savedHistory \<Rightarrow>
          (case load_saved st USER_KEY initial_user of
             Inl e \<Rightarrow> Inl e
           | Inr savedUser \<Rightarrow>
               (case load_saved st REMINDERS_KEY (JArr []) of
                  Inl e \<Rightarrow> Inl e
                | Inr savedReminders \<Rightarrow>
                    Inr \<lparr> l_history = savedHistory, l_user = savedUser,
                          l_reminders = savedReminders \<rparr>)))"

text \<open>A store whose reminders were cut off in the middle of a write.\<close>

definition truncated_store :: storage where
  "truncated_store = Map.empty(REMINDERS_KEY \<mapsto> js ''[{\"id\":\"r1\"'')"

lemma JSON_parse_empty: "JSON_parse [] = Inl SyntaxError"
  by (simp add: JSON_parse_def)

lemma JSON_stringify_nonempty: "wf_json v \<Longrightarrow> JSON_stringify v \<noteq> []"
  using JSON_parse_stringify[of v] JSON_parse_empty by auto

lemma JSON_parse_error: "JSON_parse text = Inl e \<Longrightarrow> e = SyntaxError"
  by (auto simp: JSON_parse_def split: option.splits)

lemma load_saved_error: "load_saved st key current = Inl e \<Longrightarrow> e = SyntaxError"
  by (auto simp: load_saved_def dest: JSON_parse_error split: option.splits if_splits)

lemma JSON_parse_truncated: "JSON_parse (js ''[{\"id\":\"r1\"'') = Inl SyntaxError"
  by (simp add: JSON_parse_def tokenize.simps lex_string.simps is_ws_def is_digit_def
      starts_with_def)

text \<open>
  C1, as stated, fails: with a stored value that is not valid JSON the load does not
  return the empty sequence. \<open>JSON.parse\<close> throws a \<open>SyntaxError\<close>, the load ends with
  it, and so does the whole effect.
\<close>

theorem load_malformed_propagates:
  "load_saved truncated_store REMINDERS_KEY (JArr []) = Inl SyntaxError
   \<and> load_state truncated_store = Inl SyntaxError"
proof -
  have k: "HISTORY_KEY \<noteq> REMINDERS_KEY" "USER_KEY \<noteq> REMINDERS_KEY"
    by (simp_all add: HISTORY_KEY_def REMINDERS_KEY_def USER_KEY_def)
  have r: "load_saved truncated_store REMINDERS_KEY (JArr []) = Inl SyntaxError"
    by (simp add: load_saved_def truncated_store_def getItem_def JSON_parse_truncated[simplified])
  have h: "load_saved truncated_store HISTORY_KEY (JArr []) = Inr (JArr [])"
    using k by (simp add: load_saved_def truncated_store_def getItem_def)
  have u: "load_saved truncated_store USER_KEY initial_user = Inr initial_user"
    using k by (simp add: load_saved_def truncated_store_def getItem_def)
  from r h u show ?thesis by (simp add: load_state_def)
qed

text \<open>
  C1, amended. For every store key: loading returns the state as it was (the empty
  sequence at the start) when the key is absent or holds the empty string; it returns the
  stored sequence when the store holds the serialization of one; and in general, for a
  stored value that is not empty, it does what \<open>JSON.parse\<close> does with it, so a stored
  value that is not valid JSON ends the load with a \<open>SyntaxError\<close>. An error of any of
  the three loads of the effect ends the effect as a whole.
\<close>

theorem load_saved_cases:
  "(getItem st key = None \<longrightarrow> load_saved st key current = Inr current)
   \<and> (getItem st key = Some [] \<longrightarrow> load_saved st key current = Inr current)
   \<and> (wf_json v \<and> getItem st key = Some (JSON_stringify v)
        \<longrightarrow> load_saved st key current = Inr v)
   \<and> (saved \<noteq> [] \<and> getItem st key = Some saved
        \<longrightarrow> load_saved st key current = JSON_parse saved)
   \<and> (load_saved st HISTORY_KEY (JArr []) = Inl e \<longrightarrow> load_state st = Inl e)
   \<and> (load_saved st USER_KEY initial_user = Inl e \<or> load_saved st REMINDERS_KEY (JArr []) = Inl e
        \<longrightarrow> load_state st = Inl e)"
proof -
  have one: "(getItem st key = None \<longrightarrow> load_saved st key current = Inr current)
   \<and> (getItem st key = Some [] \<longrightarrow> load_saved st key current = Inr current)
   \<and> (wf_json v \<and> getItem st key = Some (JSON_stringify v)
        \<longrightarrow> load_saved st key current = Inr v)
   \<and> (saved \<noteq> [] \<and> getItem st key = Some saved
        \<longrightarrow> load_saved st key current = JSON_parse saved)"
    using JSON_stringify_nonempty[of v] JSON_parse_stringify[of v]
    by (auto simp: load_saved_def)
  have first: "load_saved st HISTORY_KEY (JArr []) = Inl e \<longrightarrow> load_state st = Inl e"
    by (simp add: load_state_def)
  have later: "load_state st = Inl e"
    if "load_saved st USER_KEY initial_user = Inl e \<or> load_saved st REMINDERS_KEY (JArr []) = Inl e"
  proof -
    from that have e: "e = SyntaxError" by (auto dest: load_saved_error)
    show ?thesis
    proof (cases "load_saved st HISTORY_KEY (JArr [])")
      case (Inl e')
      with load_saved_error[OF Inl] e show ?thesis by (simp add: load_state_def)
    next
      case h: (Inr savedHistory)
      show ?thesis
      proof (cases "load_saved st USER_KEY initial_user")
        case (Inl e')
        with load_saved_error[OF Inl] e h show ?thesis by (simp add: load_state_def)
      next
        case (Inr savedUser)
        with that h show ?thesis by (auto simp: load_state_def)
      qed
    qed
  qed
  from one first later show ?thesis by blast
qed

text \<open>
  C7. Saving a sequence and loading its key gives the sequence back: for every sequence
  of reminders (the empty one too) written by \<open>saveReminders\<close>, for every history
  written by \<open>saveToHistory\<close> (these are the sequences that are not empty), and for the
  empty history left by \<open>Clear All\<close>, the load returns the value of the sequence that
  was saved; and different sequences have different values.
\<close>

theorem save_load_roundtrip:
  "load_saved (store (saveReminders updated s)) REMINDERS_KEY current = Inr (reminders_json updated)
   \<and> load_saved (store (saveToHistory item s)) HISTORY_KEY current
       = Inr (history_json (item # history s))
   \<and> load_saved (store (clearHistory s)) HISTORY_KEY (JArr []) = Inr (history_json [])
   \<and> inj reminders_json \<and> inj history_json"
proof -
  have r: "load_saved (store (saveReminders updated s)) REMINDERS_KEY current
      = Inr (reminders_json updated)"
    using JSON_stringify_nonempty[OF wf_reminders_json, of updated]
      JSON_parse_stringify[OF wf_reminders_json, of updated]
    by (simp add: load_saved_def saveReminders_def getItem_def setItem_def)
  have h: "load_saved (store (saveToHistory item s)) HISTORY_KEY current
      = Inr (history_json (item # history s))"
    using JSON_stringify_nonempty[OF wf_history_json, of "item # history s"]
      JSON_parse_stringify[OF wf_history_json, of "item # history s"]
    by (simp add: load_saved_def saveToHistory_def Let_def getItem_def setItem_def)
  have c: "load_saved (store (clearHistory s)) HISTORY_KEY (JArr []) = Inr (history_json [])"
    by (simp add: load_saved_def clearHistory_def getItem_def history_json_def)
  from r h c inj_reminders_json inj_history_json show ?thesis by blast
qed

definition blank_store :: storage where
  "blank_store = Map.empty(HISTORY_KEY \<mapsto> [])"

definition corrupt_history_store :: storage where
  "corrupt_history_store = Map.empty(HISTORY_KEY \<mapsto> js ''{'')"

lemma JSON_parse_brace: "JSON_parse (js ''{'') = Inl SyntaxError"
  by (simp add: JSON_parse_def tokenize.simps is_ws_def)

theorem load_saved_cases_witness:
  "getItem (store demo_app) HISTORY_KEY = None
   \<and> load_saved (store demo_app) HISTORY_KEY (JArr []) = Inr (JArr [])
   \<and> getItem blank_store HISTORY_KEY = Some []
   \<and> load_saved blank_store HISTORY_KEY (JArr []) = Inr (JArr [])
   \<and> wf_json (reminders_json [demo_reminder])
   \<and> getItem (store demo_app) REMINDERS_KEY = Some (JSON_stringify (reminders_json [demo_reminder]))
   \<and> load_saved (store demo_app) REMINDERS_KEY (JArr []) = Inr (reminders_json [demo_reminder])
   \<and> js ''[{\"id\":\"r1\"'' \<noteq> []
   \<and> getItem truncated_store REMINDERS_KEY = Some (js ''[{\"id\":\"r1\"'')
   \<and> load_saved truncated_store REMINDERS_KEY (JArr []) = Inl SyntaxError
   \<and> load_saved corrupt_history_store HISTORY_KEY (JArr []) = Inl SyntaxError
   \<and> load_state corrupt_history_store = Inl SyntaxError
   \<and> load_state truncated_store = Inl SyntaxError"
proof -
  have a: "getItem (store demo_app) HISTORY_KEY = None"
    by (simp add: demo_app_def getItem_def HISTORY_KEY_def REMINDERS_KEY_def)
  have b: "getItem blank_store HISTORY_KEY = Some []"
    by (simp add: blank_store_def getItem_def)
  have c: "wf_json (reminders_json [demo_reminder])"
    by (rule wf_reminders_json)
  have d: "getItem (store demo_app) REMINDERS_KEY
      = Some (JSON_stringify (reminders_json [demo_reminder]))"
    by (simp add: demo_app_def getItem_def)
  have e: "js ''[{\"id\":\"r1\"'' \<noteq> []" by simp
  have f: "getItem truncated_store REMINDERS_KEY = Some (js ''[{\"id\":\"r1\"'')"
    by (simp add: truncated_store_def getItem_def)
  have g: "load_saved corrupt_history_store HISTORY_KEY (JArr []) = Inl SyntaxError"
    by (simp add: load_saved_def corrupt_history_store_def getItem_def
        JSON_parse_brace[simplified])
  from load_saved_cases [of "store demo_app" HISTORY_KEY "JArr []"] a
  have 1: "load_saved (store demo_app) HISTORY_KEY (JArr []) = Inr (JArr [])" by blast
  from load_saved_cases [of blank_store HISTORY_KEY "JArr []"] b
  have 2: "load_saved blank_store HISTORY_KEY (JArr []) = Inr (JArr [])" by blast
  from load_saved_cases [of "store demo_app" REMINDERS_KEY "JArr []" "reminders_json [demo_reminder]"] c d
  have 3: "load_saved (store demo_app) REMINDERS_KEY (JArr []) = Inr (reminders_json [demo_reminder])"
    by blast
  from load_saved_cases [of truncated_store REMINDERS_KEY "JArr []" _ "js ''[{\"id\":\"r1\"''"] e f
  have "load_saved truncated_store REMINDERS_KEY (JArr []) = JSON_parse (js ''[{\"id\":\"r1\"'')"
    by blast
  then have 4: "load_saved truncated_store REMINDERS_KEY (JArr []) = Inl SyntaxError"
    by (simp only: JSON_parse_truncated)
  from load_saved_cases [of corrupt_history_store _ _ _ _ SyntaxError] g
  have 5: "load_state corrupt_history_store = Inl SyntaxError" by blast
  from load_saved_cases [of truncated_store _ _ _ _ SyntaxError] 4
  have 6: "load_state truncated_store = Inl SyntaxError" by blast
  from a b c d e f g 1 2 3 4 5 6 show ?thesis by blast
qed

theorem save_load_roundtrip_witness:
  "load_saved (store (saveReminders [demo_reminder] demo_app)) REMINDERS_KEY (JArr [])
     = Inr (reminders_json [demo_reminder])
   \<and> load_saved (store (saveReminders [] demo_app)) REMINDERS_KEY (JArr []) = Inr (reminders_json [])
   \<and> load_saved (store (saveToHistory demo_item demo_app)) HISTORY_KEY (JArr [])
       = Inr (history_json (demo_item # history demo_app))
   \<and> load_saved (store (clearHistory (saveToHistory demo_item demo_app))) HISTORY_KEY (JArr [])
       = Inr (history_json [])"
  using save_load_roundtrip [of "[demo_reminder]" demo_app "JArr []" demo_item]
    save_load_roundtrip [of "[]" demo_app "JArr []" demo_item]
    save_load_roundtrip [of "[]" "saveToHistory demo_item demo_app" "JArr []" demo_item]
  by blast

end
